theory Spec2Isabelle
  imports Complex_Main
begin

section \<open>Data model\<close>

text \<open>
  JavaScript numbers are modelled as reals, and an arithmetic result as the exact
  result, with two exceptions. The blend of \<open>crossover\<close> is rounded as IEEE 754
  double arithmetic rounds it (\<open>round_double\<close> below): it is stored in a gene
  without a clamp, so the last bit decides whether the gene stays within its bounds.
  And in the aerodynamic evaluator, whose division by the freestream speed can have a
  zero divisor, a pressure coefficient or a force is a \<open>real option\<close>, with \<open>None\<close> for
  a non-finite number (NaN or an infinity). Every other division of the code either
  has a guard, which the model keeps, or a divisor that is zero only for the inputs
  named in the comment of its definition; the model is for the other inputs.
  Overflow is outside the model.
\<close>

datatype Vector3 = Vector3 (vx: real) (vy: real) (vz: real)

text \<open>
  A \<open>THREE.BufferGeometry\<close> as the generators build it: the position attribute, three
  floats per vertex, and the optional triangle index, a flat list of vertex numbers.
  The normal attribute is left out: the solver reads it into a variable that it never
  uses.
\<close>

record BufferGeometry =
  position :: "Vector3 list"
  index :: "nat list option"

record Gene =
  gene_name :: string
  gene_value :: real
  gene_min :: real
  gene_max :: real

record Individual =
  genes :: "Gene list"
  fitness :: real
  geometry :: "BufferGeometry option"
  drag :: "real option"
  lift :: "real option"

datatype ConstraintType = CMin | CMax | CEqual

record Constraint =
  constraint_name :: string
  constraint_type :: ConstraintType
  constraint_value :: real
  evaluate :: "Individual \<Rightarrow> real"
  penalty :: real

record GAConfig =
  populationSize :: real
  mutationRate :: real
  crossoverRate :: real
  elitismCount :: real
  tournamentSize :: real

text \<open>\<open>Partial<GAConfig>\<close>: every field may be absent.\<close>

record PartialGAConfig =
  opt_populationSize :: "real option"
  opt_mutationRate :: "real option"
  opt_crossoverRate :: "real option"
  opt_elitismCount :: "real option"
  opt_tournamentSize :: "real option"

record GeneticAlgorithm =
  config :: GAConfig
  population :: "Individual list"
  generation :: nat
  bestIndividual :: "Individual option"
  fitnessHistory :: "real list"
  constraints :: "Constraint list"

text \<open>What the caller-supplied objective function returns.\<close>

record ObjectiveResult =
  result_fitness :: real
  result_geometry :: "BufferGeometry option"
  result_drag :: "real option"
  result_lift :: "real option"

datatype error = TypeError

text \<open>
  \<open>Math.random()\<close> is an ambient source: the model reads the draws from a sequence
  \<open>rnd\<close> and threads the position \<open>k\<close> of the next draw through every call.
\<close>

type_synonym rng = "nat \<Rightarrow> real"

section \<open>The genetic algorithm (genetic.ts)\<close>

text \<open>JavaScript's \<open>v || d\<close> on an optional number: absent and \<open>0\<close> are falsy.\<close>

definition or_default :: "real option \<Rightarrow> real \<Rightarrow> real" where
  "or_default v d = (case v of None \<Rightarrow> d | Some x \<Rightarrow> if x = 0 then d else x)"

definition constructor :: "PartialGAConfig \<Rightarrow> GeneticAlgorithm" where
  "constructor c =
     \<lparr>config =
        \<lparr>populationSize = or_default (opt_populationSize c) 50,
         mutationRate = or_default (opt_mutationRate c) (1 / 10),
         crossoverRate = or_default (opt_crossoverRate c) (7 / 10),
         elitismCount = or_default (opt_elitismCount c) 2,
         tournamentSize = or_default (opt_tournamentSize c) 3\<rparr>,
      population = [],
      generation = 0,
      bestIndividual = None,
      fitnessHistory = [],
      constraints = []\<rparr>"

text \<open>
  The number of rounds of \<open>for (let i = 0; i < n; i++)\<close> for a number \<open>n\<close>: the least
  natural number that is not below \<open>n\<close>.
\<close>

definition loop_count :: "real \<Rightarrow> nat" where
  "loop_count n = nat \<lceil>n\<rceil>"

text \<open>\<open>geneTemplate.map(gene => ({...gene, value: gene.min + Math.random() * (gene.max - gene.min)}))\<close>\<close>

fun random_genes :: "rng \<Rightarrow> nat \<Rightarrow> Gene list \<Rightarrow> Gene list \<times> nat" where
  "random_genes rnd k [] = ([], k)"
| "random_genes rnd k (g # gs) =
     (let g' = g\<lparr>gene_value := gene_min g + rnd k * (gene_max g - gene_min g)\<rparr>;
          (gs', k') = random_genes rnd (Suc k) gs
      in (g' # gs', k'))"

fun random_individuals :: "rng \<Rightarrow> nat \<Rightarrow> nat \<Rightarrow> Gene list \<Rightarrow> Individual list \<times> nat" where
  "random_individuals rnd k 0 geneTemplate = ([], k)"
| "random_individuals rnd k (Suc n) geneTemplate =
     (let (gs, k1) = random_genes rnd k geneTemplate;
          (rest, k2) = random_individuals rnd k1 n geneTemplate
      in (\<lparr>genes = gs, fitness = 0, geometry = None, drag = None, lift = None\<rparr> # rest, k2))"

definition initializePopulation ::
  "rng \<Rightarrow> nat \<Rightarrow> GeneticAlgorithm \<Rightarrow> Gene list \<Rightarrow> GeneticAlgorithm \<times> nat" where
  "initializePopulation rnd k ga geneTemplate =
     (let (pop, k') = random_individuals rnd k (loop_count (populationSize (config ga))) geneTemplate
      in (ga\<lparr>population := pop, generation := 0, fitnessHistory := []\<rparr>, k'))"

definition addConstraint :: "GeneticAlgorithm \<Rightarrow> Constraint \<Rightarrow> GeneticAlgorithm" where
  "addConstraint ga c = ga\<lparr>constraints := constraints ga @ [c]\<rparr>"

definition clearConstraints :: "GeneticAlgorithm \<Rightarrow> GeneticAlgorithm" where
  "clearConstraints ga = ga\<lparr>constraints := []\<rparr>"

text \<open>The \<open>switch\<close> of \<open>evaluateFitness\<close> on the constraint type.\<close>

definition violation :: "Constraint \<Rightarrow> real \<Rightarrow> real" where
  "violation c v =
     (case constraint_type c of
        CMin \<Rightarrow> max 0 (constraint_value c - v)
      | CMax \<Rightarrow> max 0 (v - constraint_value c)
      | CEqual \<Rightarrow> \<bar>v - constraint_value c\<bar>)"

text \<open>One round of the loop over the constraints: \<open>fit\<close> is the running fitness.\<close>

definition apply_penalty :: "Individual \<Rightarrow> real \<Rightarrow> Constraint \<Rightarrow> real" where
  "apply_penalty individual fit c =
     (let v = evaluate c individual;
          viol = violation c v
      in if viol > 0 then fit - viol * penalty c else fit)"

definition evaluateFitness ::
  "GeneticAlgorithm \<Rightarrow> Individual \<Rightarrow> (Gene list \<Rightarrow> ObjectiveResult) \<Rightarrow> Individual" where
  "evaluateFitness ga individual objectiveFunction =
     (let result = objectiveFunction (genes individual);
          fit = foldl (apply_penalty individual) (result_fitness result) (constraints ga)
      in individual\<lparr>fitness := fit,
                    geometry := result_geometry result,
                    drag := result_drag result,
                    lift := result_lift result\<rparr>)"

text \<open>
  \<open>this.population[Math.floor(Math.random() * this.population.length)]\<close>: reading
  outside the array gives \<open>undefined\<close>, here \<open>None\<close>.
\<close>

definition pick :: "rng \<Rightarrow> nat \<Rightarrow> Individual list \<Rightarrow> Individual option" where
  "pick rnd k pop =
     (let i = \<lfloor>rnd k * real (length pop)\<rfloor>
      in if 0 \<le> i \<and> i < int (length pop) then Some (pop ! nat i) else None)"

text \<open>
  The loop of \<open>tournamentSelection\<close>, \<open>n\<close> rounds to go. \<open>!best\<close> holds for \<open>null\<close> and
  for \<open>undefined\<close>, and then \<open>candidate.fitness\<close> is not read; with a \<open>best\<close> at hand,
  reading the fitness of an \<open>undefined\<close> candidate throws.
\<close>

fun tournament_loop ::
  "rng \<Rightarrow> nat \<Rightarrow> Individual list \<Rightarrow> nat \<Rightarrow> Individual option \<Rightarrow> (error + Individual option) \<times> nat" where
  "tournament_loop rnd k pop 0 best = (Inr best, k)"
| "tournament_loop rnd k pop (Suc n) best =
     (let candidate = pick rnd k pop
      in case best of
           None \<Rightarrow> tournament_loop rnd (Suc k) pop n candidate
         | Some b \<Rightarrow>
             (case candidate of
                None \<Rightarrow> (Inl TypeError, Suc k)
              | Some c \<Rightarrow>
                  tournament_loop rnd (Suc k) pop n (if fitness c > fitness b then Some c else Some b)))"

definition tournamentSelection ::
  "rng \<Rightarrow> nat \<Rightarrow> GeneticAlgorithm \<Rightarrow> (error + Individual option) \<times> nat" where
  "tournamentSelection rnd k ga =
     tournament_loop rnd k (population ga) (loop_count (tournamentSize (config ga))) None"

text \<open>
  Rounding to the nearest IEEE 754 double (binary64), ties to even. \<open>bit_length n\<close>
  is the number of binary digits of \<open>n\<close>, \<open>two_pow e\<close> is \<open>2\<close> to the power \<open>e\<close>, and
  \<open>exponent_of a\<close> is the exponent of the leading binary digit of \<open>a > 0\<close>: the \<open>e\<close>
  with \<open>2 ^ e \<le> a < 2 ^ (e + 1)\<close>. A double has 53 significant binary digits, so the
  doubles near \<open>a\<close> are the multiples of \<open>2 ^ (e - 52)\<close>, and of \<open>2 ^ (- 1074)\<close> in the
  subnormal range. Overflow to \<open>Infinity\<close>, beyond the largest double, is not modelled:
  \<open>round_double\<close> is the rounding of the magnitudes a gene value takes.
\<close>

function bit_length :: "int \<Rightarrow> nat" where
  "bit_length n = (if n \<le> 0 then 0 else Suc (bit_length (n div 2)))"
  by pat_completeness auto
termination
  by (relation "measure nat") auto

declare bit_length.simps [simp del]

definition two_pow :: "int \<Rightarrow> real" where
  "two_pow e = (if 0 \<le> e then 2 ^ nat e else 1 / 2 ^ nat (- e))"

definition exponent_of :: "real \<Rightarrow> int" where
  "exponent_of a =
     (if 1 \<le> a then int (bit_length \<lfloor>a\<rfloor>) - 1
      else (let k = int (bit_length \<lfloor>1 / a\<rfloor>) - 1
            in if a = two_pow (- k) then - k else - k - 1))"

definition round_even :: "real \<Rightarrow> int" where
  "round_even x =
     (let f = \<lfloor>x\<rfloor>; d = x - of_int f
      in if d < 1 / 2 then f else if 1 / 2 < d then f + 1 else if even f then f else f + 1)"

definition round_double :: "real \<Rightarrow> real" where
  "round_double x =
     (if x = 0 then 0
      else (let a = \<bar>x\<bar>;
                e = max (exponent_of a) (- 1022);
                q = two_pow (e - 52)
            in sgn x * of_int (round_even (a / q)) * q))"

text \<open>
  The loop of \<open>crossover\<close> over the genes of \<open>parent1\<close> from position \<open>i\<close> on; \<open>genes2\<close>
  are the genes of \<open>parent2\<close>. \<open>parent2.genes[i].value\<close> is read only when the blend
  fires, and throws when \<open>parent2\<close> has no gene \<open>i\<close>. The blend
  \<open>alpha * parent1.genes[i].value + (1 - alpha) * parent2.genes[i].value\<close> is four
  operations on doubles, each rounded, and its result is stored as it is.
\<close>

fun crossover_loop ::
  "rng \<Rightarrow> nat \<Rightarrow> real \<Rightarrow> Gene list \<Rightarrow> Gene list \<Rightarrow> nat \<Rightarrow> (error + Gene list) \<times> nat" where
  "crossover_loop rnd k rate [] genes2 i = (Inr [], k)"
| "crossover_loop rnd k rate (g # gs) genes2 i =
     (if rnd k < rate then
        (let alpha = rnd (Suc k)
         in if i < length genes2 then
              (let gene = g\<lparr>gene_value :=
                     round_double (round_double (alpha * gene_value g) +
                       round_double (round_double (1 - alpha) * gene_value (genes2 ! i)))\<rparr>
               in case crossover_loop rnd (Suc (Suc k)) rate gs genes2 (Suc i) of
                    (Inl e, k') \<Rightarrow> (Inl e, k')
                  | (Inr rest, k') \<Rightarrow> (Inr (gene # rest), k'))
            else (Inl TypeError, Suc (Suc k)))
      else
        (case crossover_loop rnd (Suc k) rate gs genes2 (Suc i) of
           (Inl e, k') \<Rightarrow> (Inl e, k')
         | (Inr rest, k') \<Rightarrow> (Inr (g # rest), k')))"

definition crossover ::
  "rng \<Rightarrow> nat \<Rightarrow> GeneticAlgorithm \<Rightarrow> Individual \<Rightarrow> Individual \<Rightarrow> (error + Individual) \<times> nat" where
  "crossover rnd k ga parent1 parent2 =
     (case crossover_loop rnd k (crossoverRate (config ga)) (genes parent1) (genes parent2) 0 of
        (Inl e, k') \<Rightarrow> (Inl e, k')
      | (Inr gs, k') \<Rightarrow>
          (Inr \<lparr>genes = gs, fitness = 0, geometry = None, drag = None, lift = None\<rparr>, k'))"

text \<open>The perturbation \<open>(Math.random() - 0.5) * range * 0.2\<close> of \<open>mutate\<close>, for the draw \<open>r\<close>.\<close>

definition mutation :: "Gene \<Rightarrow> real \<Rightarrow> real" where
  "mutation gene r = (r - 1 / 2) * (gene_max gene - gene_min gene) * (2 / 10)"

text \<open>\<open>gene.value = Math.max(gene.min, Math.min(gene.max, gene.value + mutation))\<close>\<close>

definition mutate_gene :: "Gene \<Rightarrow> real \<Rightarrow> Gene" where
  "mutate_gene gene r =
     gene\<lparr>gene_value := max (gene_min gene) (min (gene_max gene) (gene_value gene + mutation gene r))\<rparr>"

fun mutate_loop :: "rng \<Rightarrow> nat \<Rightarrow> real \<Rightarrow> Gene list \<Rightarrow> Gene list \<times> nat" where
  "mutate_loop rnd k rate [] = ([], k)"
| "mutate_loop rnd k rate (g # gs) =
     (if rnd k < rate then
        (let (rest, k') = mutate_loop rnd (Suc (Suc k)) rate gs
         in (mutate_gene g (rnd (Suc k)) # rest, k'))
      else
        (let (rest, k') = mutate_loop rnd (Suc k) rate gs
         in (g # rest, k')))"

definition mutate :: "rng \<Rightarrow> nat \<Rightarrow> GeneticAlgorithm \<Rightarrow> Individual \<Rightarrow> Individual \<times> nat" where
  "mutate rnd k ga individual =
     (let (gs, k') = mutate_loop rnd k (mutationRate (config ga)) (genes individual)
      in (individual\<lparr>genes := gs\<rparr>, k'))"

text \<open>
  The body of the offspring loop of \<open>evolve\<close>: two tournaments, crossover, mutation.
  A tournament that returns \<open>null\<close> or \<open>undefined\<close> makes \<open>crossover\<close> throw: for
  \<open>parent1\<close> at \<open>parent1.genes.length\<close>; for \<open>parent2\<close> at the first blend, as for a
  parent without genes.
\<close>

definition make_offspring :: "rng \<Rightarrow> nat \<Rightarrow> GeneticAlgorithm \<Rightarrow> (error + Individual) \<times> nat" where
  "make_offspring rnd k ga =
     (case tournamentSelection rnd k ga of
        (Inl e, k1) \<Rightarrow> (Inl e, k1)
      | (Inr parent1, k1) \<Rightarrow>
          (case tournamentSelection rnd k1 ga of
             (Inl e, k2) \<Rightarrow> (Inl e, k2)
           | (Inr parent2, k2) \<Rightarrow>
               (case parent1 of
                  None \<Rightarrow> (Inl TypeError, k2)
                | Some p1 \<Rightarrow>
                    (case crossover rnd k2 ga p1
                            (case parent2 of
                               Some p2 \<Rightarrow> p2
                             | None \<Rightarrow> \<lparr>genes = [], fitness = 0, geometry = None, drag = None, lift = None\<rparr>) of
                       (Inl e, k3) \<Rightarrow> (Inl e, k3)
                     | (Inr offspring, k3) \<Rightarrow>
                         (let (mutated, k4) = mutate rnd k3 ga offspring in (Inr mutated, k4))))))"

text \<open>
  \<open>while (nextGeneration.length < populationSize)\<close>, with \<open>n\<close> rounds to go: every round
  pushes one offspring, so the loop runs \<open>loop_count (populationSize - length)\<close> times.
\<close>

fun offspring_loop ::
  "rng \<Rightarrow> nat \<Rightarrow> GeneticAlgorithm \<Rightarrow> nat \<Rightarrow> Individual list \<Rightarrow> (error + Individual list) \<times> nat" where
  "offspring_loop rnd k ga 0 nextGeneration = (Inr nextGeneration, k)"
| "offspring_loop rnd k ga (Suc n) nextGeneration =
     (case make_offspring rnd k ga of
        (Inl e, k') \<Rightarrow> (Inl e, k')
      | (Inr offspring, k') \<Rightarrow> offspring_loop rnd k' ga n (nextGeneration @ [offspring]))"

text \<open>
  The elitism loop, \<open>n\<close> rounds to go from position \<open>i\<close>: \<open>this.population[i].genes\<close>
  throws beyond the end of the population.
\<close>

fun elitism_loop :: "Individual list \<Rightarrow> nat \<Rightarrow> nat \<Rightarrow> Individual list \<Rightarrow> error + Individual list" where
  "elitism_loop pop i 0 nextGeneration = Inr nextGeneration"
| "elitism_loop pop i (Suc n) nextGeneration =
     (if i < length pop then
        elitism_loop pop (Suc i) n
          (nextGeneration @
             [\<lparr>genes = genes (pop ! i), fitness = fitness (pop ! i),
               geometry = None, drag = None, lift = None\<rparr>])
      else Inl TypeError)"

text \<open>
  The first half of \<open>evolve\<close>: evaluate every individual, then
  \<open>population.sort((a, b) => b.fitness - a.fitness)\<close>, a stable sort, descending.
\<close>

definition evaluate_and_sort ::
  "GeneticAlgorithm \<Rightarrow> (Gene list \<Rightarrow> ObjectiveResult) \<Rightarrow> GeneticAlgorithm" where
  "evaluate_and_sort ga objectiveFunction =
     ga\<lparr>population :=
          sort_key (\<lambda>ind. - fitness ind)
            (map (\<lambda>ind. evaluateFitness ga ind objectiveFunction) (population ga))\<rparr>"

text \<open>
  Tracking the best individual and the fitness history; \<open>topInd\<close> is
  \<open>this.population[0]\<close>, and the snapshot
  \<open>{...this.population[0], genes: [...this.population[0].genes]}\<close> has its fields.
\<close>

definition track_best :: "GeneticAlgorithm \<Rightarrow> Individual \<Rightarrow> GeneticAlgorithm" where
  "track_best ga topInd =
     ga\<lparr>bestIndividual :=
          (case bestIndividual ga of
             None \<Rightarrow> Some topInd
           | Some b \<Rightarrow> if fitness topInd > fitness b then Some topInd else Some b),
        fitnessHistory := fitnessHistory ga @ [fitness topInd]\<rparr>"

text \<open>
  \<open>evolve\<close> returns the state the object is left in, the position of the next draw, and
  the exception thrown, if any: with an empty population \<open>this.population[0]\<close> is
  \<open>undefined\<close> and reading from it throws before anything is tracked.
\<close>

definition evolve ::
  "rng \<Rightarrow> nat \<Rightarrow> GeneticAlgorithm \<Rightarrow> (Gene list \<Rightarrow> ObjectiveResult) \<Rightarrow>
     error option \<times> GeneticAlgorithm \<times> nat" where
  "evolve rnd k ga objectiveFunction =
     (let ga1 = evaluate_and_sort ga objectiveFunction
      in case population ga1 of
           [] \<Rightarrow> (Some TypeError, ga1, k)
         | topInd # _ \<Rightarrow>
             (let ga2 = track_best ga1 topInd
              in case elitism_loop (population ga2) 0 (loop_count (elitismCount (config ga2))) [] of
                   Inl e \<Rightarrow> (Some e, ga2, k)
                 | Inr elite \<Rightarrow>
                     (case offspring_loop rnd k ga2
                             (loop_count (populationSize (config ga2) - real (length elite))) elite of
                        (Inl e, k') \<Rightarrow> (Some e, ga2, k')
                      | (Inr nextGeneration, k') \<Rightarrow>
                          (None, ga2\<lparr>population := nextGeneration, generation := Suc (generation ga2)\<rparr>, k'))))"

definition getBest :: "GeneticAlgorithm \<Rightarrow> Individual option" where
  "getBest ga = bestIndividual ga"

text \<open>\<open>population.reduce((acc, ind) => acc + ind.fitness, 0) / population.length\<close>\<close>

definition getAverageFitness :: "GeneticAlgorithm \<Rightarrow> real" where
  "getAverageFitness ga =
     (if length (population ga) = 0 then 0
      else foldl (\<lambda>acc ind. acc + fitness ind) 0 (population ga) / real (length (population ga)))"

section \<open>Geometry generators (geometry.ts)\<close>

text \<open>
  The segment and ring counts are natural numbers (the callers pass the defaults 20 and
  32). The faces loops push six vertex numbers, two triangles, for every quadrilateral.
\<close>

definition quad_faces :: "nat \<Rightarrow> nat \<Rightarrow> nat list" where
  "quad_faces a stride =
     (let b = a + stride; c = a + 1; d = b + 1
      in [a, b, c, b, d, c])"

text \<open>
  \<open>createWingGeometry\<close>. The vertex loop reads \<open>airfoilY[j]\<close> for every position \<open>j\<close> of
  \<open>airfoilX\<close>; the model is for an \<open>airfoilY\<close> at least as long as \<open>airfoilX\<close> and for
  \<open>segments > 0\<close> (otherwise JavaScript stores NaN coordinates).
\<close>

definition wing_vertices :: "real list \<Rightarrow> real list \<Rightarrow> real \<Rightarrow> real \<Rightarrow> nat \<Rightarrow> Vector3 list" where
  "wing_vertices airfoilX airfoilY wingSpan chord segments =
     concat (map (\<lambda>i.
        let z = (real i / real segments - 1 / 2) * wingSpan
        in map (\<lambda>j. Vector3 (airfoilX ! j * chord) (airfoilY ! j * chord) z) [0..<length airfoilX])
       [0..<segments + 1])"

definition wing_indices :: "nat \<Rightarrow> nat \<Rightarrow> nat list" where
  "wing_indices pointsPerSection segments =
     concat (map (\<lambda>i.
        concat (map (\<lambda>j. quad_faces (i * pointsPerSection + j) pointsPerSection)
          [0..<pointsPerSection - 1]))
       [0..<segments])"

definition createWingGeometry ::
  "real list \<Rightarrow> real list \<Rightarrow> real \<Rightarrow> real \<Rightarrow> nat \<Rightarrow> BufferGeometry" where
  "createWingGeometry airfoilX airfoilY wingSpan chord segments =
     \<lparr>position = wing_vertices airfoilX airfoilY wingSpan chord segments,
      index = Some (wing_indices (length airfoilX) segments)\<rparr>"

text \<open>
  \<open>createOgiveGeometry\<close>: the vertex \<open>j\<close> of ring \<open>i\<close>. The model is for \<open>radius \<noteq> 0\<close>,
  \<open>segments > 0\<close> and \<open>rings > 0\<close> (otherwise JavaScript divides by zero).
\<close>

definition ogive_vertex :: "real \<Rightarrow> real \<Rightarrow> nat \<Rightarrow> nat \<Rightarrow> nat \<Rightarrow> nat \<Rightarrow> Vector3" where
  "ogive_vertex len radius segments rings i j =
     (let rho = (radius * radius + len * len) / (2 * radius);
          x = (real i / real rings) * len;
          y = sqrt (rho * rho - (len - x) * (len - x)) - (rho - radius);
          theta = (real j / real segments) * pi * 2
      in Vector3 x (y * cos theta) (y * sin theta))"

definition ogive_vertices :: "real \<Rightarrow> real \<Rightarrow> nat \<Rightarrow> nat \<Rightarrow> Vector3 list" where
  "ogive_vertices len radius segments rings =
     concat (map (\<lambda>i. map (\<lambda>j. ogive_vertex len radius segments rings i j) [0..<segments + 1])
       [0..<rings + 1])"

definition ogive_indices :: "nat \<Rightarrow> nat \<Rightarrow> nat list" where
  "ogive_indices segments rings =
     concat (map (\<lambda>i.
        concat (map (\<lambda>j. quad_faces (i * (segments + 1) + j) (segments + 1)) [0..<segments]))
       [0..<rings])"

definition createOgiveGeometry :: "real \<Rightarrow> real \<Rightarrow> nat \<Rightarrow> nat \<Rightarrow> BufferGeometry" where
  "createOgiveGeometry len radius segments rings =
     \<lparr>position = ogive_vertices len radius segments rings,
      index = Some (ogive_indices segments rings)\<rparr>"

text \<open>
  \<open>createAhmedBodyGeometry\<close>: the profile (its \<open>x\<close> and \<open>y\<close>; the third entry of every
  point is not read), extruded over 20 segments.
\<close>

definition ahmed_points :: "real \<Rightarrow> real \<Rightarrow> real \<Rightarrow> (real \<times> real) list" where
  "ahmed_points len height slantAngle =
     (let slantLength = 222 / 1000;
          slantHeight = slantLength * tan (slantAngle * pi / 180)
      in [(0, 0), (1 / 10, 0), (2 / 10, height * (3 / 10)), (3 / 10, height * (7 / 10)),
          (338 / 1000, height), (len - slantLength, height), (len, height - slantHeight),
          (len, 0)])"

definition ahmed_vertices :: "real \<Rightarrow> real \<Rightarrow> real \<Rightarrow> real \<Rightarrow> Vector3 list" where
  "ahmed_vertices len width height slantAngle =
     concat (map (\<lambda>i.
        let z = (real i / 20 - 1 / 2) * width
        in map (\<lambda>(x, y). Vector3 x y z) (ahmed_points len height slantAngle))
       [0..<20 + 1])"

definition ahmed_indices :: "nat \<Rightarrow> nat \<Rightarrow> nat list" where
  "ahmed_indices pointsPerSection segments =
     concat (map (\<lambda>i.
        concat (map (\<lambda>j. quad_faces (i * pointsPerSection + j) pointsPerSection)
          [0..<pointsPerSection - 1]))
       [0..<segments])
     @ concat (map (\<lambda>i. [0, i + 1, i]) [1..<pointsPerSection - 1])
     @ (let backStart = segments * pointsPerSection
        in concat (map (\<lambda>i. [backStart, backStart + i, backStart + i + 1]) [1..<pointsPerSection - 1]))"

definition createAhmedBodyGeometry :: "real \<Rightarrow> real \<Rightarrow> real \<Rightarrow> real \<Rightarrow> BufferGeometry" where
  "createAhmedBodyGeometry len width height slantAngle =
     \<lparr>position = ahmed_vertices len width height slantAngle,
      index = Some (ahmed_indices (length (ahmed_points len height slantAngle)) 20)\<rparr>"

section \<open>Aerodynamic evaluator (cfd.ts)\<close>

text \<open>The methods of \<open>THREE.Vector3\<close> that the solver calls.\<close>

definition add_v :: "Vector3 \<Rightarrow> Vector3 \<Rightarrow> Vector3" where
  "add_v a b = Vector3 (vx a + vx b) (vy a + vy b) (vz a + vz b)"

definition subVectors :: "Vector3 \<Rightarrow> Vector3 \<Rightarrow> Vector3" where
  "subVectors a b = Vector3 (vx a - vx b) (vy a - vy b) (vz a - vz b)"

definition crossVectors :: "Vector3 \<Rightarrow> Vector3 \<Rightarrow> Vector3" where
  "crossVectors a b =
     Vector3 (vy a * vz b - vz a * vy b) (vz a * vx b - vx a * vz b) (vx a * vy b - vy a * vx b)"

definition dot_v :: "Vector3 \<Rightarrow> Vector3 \<Rightarrow> real" where
  "dot_v a b = vx a * vx b + vy a * vy b + vz a * vz b"

definition lengthSq :: "Vector3 \<Rightarrow> real" where
  "lengthSq a = vx a * vx a + vy a * vy a + vz a * vz a"

definition length_v :: "Vector3 \<Rightarrow> real" where
  "length_v a = sqrt (lengthSq a)"

definition multiplyScalar :: "Vector3 \<Rightarrow> real \<Rightarrow> Vector3" where
  "multiplyScalar a s = Vector3 (vx a * s) (vy a * s) (vz a * s)"

text \<open>\<open>divideScalar(s)\<close> is \<open>multiplyScalar(1 / s)\<close>; the solver calls it with 3 and below.\<close>

definition divideScalar :: "Vector3 \<Rightarrow> real \<Rightarrow> Vector3" where
  "divideScalar a s = multiplyScalar a (1 / s)"

text \<open>\<open>normalize()\<close> is \<open>divideScalar(this.length() || 1)\<close>: the zero vector stays as it is.\<close>

definition normalize_v :: "Vector3 \<Rightarrow> Vector3" where
  "normalize_v a = divideScalar a (if length_v a = 0 then 1 else length_v a)"

definition distanceTo :: "Vector3 \<Rightarrow> Vector3 \<Rightarrow> real" where
  "distanceTo a b = length_v (subVectors a b)"

record Panel =
  panel_center :: Vector3
  panel_normal :: Vector3
  panel_area :: real

record PanelMethodSolver =
  freestream :: Vector3
  density :: real
  reynoldsNumber :: real

text \<open>
  A pressure coefficient or a force is a \<open>real option\<close>: \<open>None\<close> stands for a non-finite
  number (NaN or an infinity), the result of a division by zero. Sums and products
  with a non-finite number are non-finite, and so is a non-finite number divided by a
  finite one.
\<close>

definition num_div :: "real option \<Rightarrow> real \<Rightarrow> real option" where
  "num_div a b = (case a of None \<Rightarrow> None | Some x \<Rightarrow> if b = 0 then None else Some (x / b))"

definition num_add :: "real option \<Rightarrow> real option \<Rightarrow> real option" where
  "num_add a b = (case a of None \<Rightarrow> None | Some x \<Rightarrow> (case b of None \<Rightarrow> None | Some y \<Rightarrow> Some (x + y)))"

definition num_mul :: "real option \<Rightarrow> real \<Rightarrow> real option" where
  "num_mul a b = (case a of None \<Rightarrow> None | Some x \<Rightarrow> Some (x * b))"

record CFDResult =
  cfd_drag :: "real option"
  cfd_lift :: "real option"
  pressureCoefficients :: "real option list"
  velocities :: "Vector3 list"

definition new_PanelMethodSolver :: "real \<Rightarrow> real \<Rightarrow> real \<Rightarrow> real \<Rightarrow> PanelMethodSolver" where
  "new_PanelMethodSolver velocity angleOfAttack dens reynolds =
     (let alpha = angleOfAttack * pi / 180
      in \<lparr>freestream = Vector3 (velocity * cos alpha) (velocity * sin alpha) 0,
          density = dens,
          reynoldsNumber = reynolds\<rparr>)"

text \<open>
  The index read in steps of three, as both loops over it do: \<open>indices[i]\<close>,
  \<open>indices[i + 1]\<close>, \<open>indices[i + 2]\<close>. A read beyond the end of the index gives
  \<open>undefined\<close>, here \<open>None\<close>.
\<close>

fun index_groups :: "nat list \<Rightarrow> (nat option \<times> nat option \<times> nat option) list" where
  "index_groups (i0 # i1 # i2 # rest) = (Some i0, Some i1, Some i2) # index_groups rest"
| "index_groups [i0, i1] = [(Some i0, Some i1, None)]"
| "index_groups [i0] = [(Some i0, None, None)]"
| "index_groups [] = []"

definition triangles :: "BufferGeometry \<Rightarrow> (nat option \<times> nat option \<times> nat option) list" where
  "triangles geo = (case index geo of None \<Rightarrow> [] | Some indices \<Rightarrow> index_groups indices)"

text \<open>
  \<open>new THREE.Vector3(positions.getX(i), positions.getY(i), positions.getZ(i))\<close>: for a
  vertex number that the mesh does not have, and for \<open>undefined\<close>, the three reads give
  \<open>undefined\<close> and the default parameters of the constructor make the vector
  \<open>(0, 0, 0)\<close>.
\<close>

definition vertex_at :: "Vector3 list \<Rightarrow> nat option \<Rightarrow> Vector3" where
  "vertex_at positions i =
     (case i of
        None \<Rightarrow> Vector3 0 0 0
      | Some n \<Rightarrow> if n < length positions then positions ! n else Vector3 0 0 0)"

text \<open>
  \<open>pressureCoefficients[i]\<close>: \<open>undefined\<close> outside the array, which makes the sum it
  enters NaN.
\<close>

definition cp_at :: "real option list \<Rightarrow> nat option \<Rightarrow> real option" where
  "cp_at cps i =
     (case i of
        None \<Rightarrow> None
      | Some n \<Rightarrow> if n < length cps then cps ! n else None)"

definition triangle_center ::
  "Vector3 list \<Rightarrow> nat option \<times> nat option \<times> nat option \<Rightarrow> Vector3" where
  "triangle_center positions t = (case t of (i0, i1, i2) \<Rightarrow>
     divideScalar
       (add_v (add_v (add_v (Vector3 0 0 0) (vertex_at positions i0)) (vertex_at positions i1))
          (vertex_at positions i2)) 3)"

definition make_panel :: "Vector3 list \<Rightarrow> nat option \<times> nat option \<times> nat option \<Rightarrow> Panel" where
  "make_panel positions t = (case t of (i0, i1, i2) \<Rightarrow>
     (let v0 = vertex_at positions i0; v1 = vertex_at positions i1; v2 = vertex_at positions i2;
          edge1 = subVectors v1 v0;
          edge2 = subVectors v2 v0
      in \<lparr>panel_center = triangle_center positions t,
          panel_normal = normalize_v (crossVectors edge1 edge2),
          panel_area = length_v (crossVectors edge1 edge2) / 2\<rparr>))"

text \<open>The velocity that one panel induces at \<open>point\<close>, added to \<open>inducedVelocity\<close>.\<close>

definition add_influence :: "PanelMethodSolver \<Rightarrow> Vector3 \<Rightarrow> Vector3 \<Rightarrow> Panel \<Rightarrow> Vector3" where
  "add_influence solver point inducedVelocity panel =
     (let r = subVectors point (panel_center panel);
          distance = length_v r
      in if distance > 1 / 1000 then
           (let strength = dot_v (freestream solver) (panel_normal panel) * panel_area panel;
                influence = multiplyScalar (crossVectors (panel_normal panel) r)
                              (strength / (distance * distance * distance))
            in add_v inducedVelocity influence)
         else inducedVelocity)"

definition totalVelocity :: "PanelMethodSolver \<Rightarrow> Panel list \<Rightarrow> Vector3 \<Rightarrow> Vector3" where
  "totalVelocity solver panels point =
     add_v (freestream solver) (foldl (add_influence solver point) (Vector3 0 0 0) panels)"

text \<open>\<open>Cp = 1 - velocityRatio * velocityRatio\<close>, the ratio being a division by the freestream speed.\<close>

definition pressureCoefficient :: "PanelMethodSolver \<Rightarrow> Panel list \<Rightarrow> Vector3 \<Rightarrow> real option" where
  "pressureCoefficient solver panels point =
     (case num_div (Some (length_v (totalVelocity solver panels point))) (length_v (freestream solver)) of
        None \<Rightarrow> None
      | Some velocityRatio \<Rightarrow> Some (1 - velocityRatio * velocityRatio))"

text \<open>
  The scan of the force loop: the first triangle whose centre is closer than 0.001 to
  the panel's centre gives \<open>avgCp\<close>; \<open>None\<close> when no triangle matches (\<open>count = 0\<close>).
\<close>

fun find_avgCp ::
  "Vector3 list \<Rightarrow> real option list \<Rightarrow> Panel \<Rightarrow> (nat option \<times> nat option \<times> nat option) list \<Rightarrow>
     real option option" where
  "find_avgCp positions cps panel [] = None"
| "find_avgCp positions cps panel ((i0, i1, i2) # ts) =
     (if distanceTo (triangle_center positions (i0, i1, i2)) (panel_center panel) < 1 / 1000 then
        Some (num_div (num_add (num_add (cp_at cps i0) (cp_at cps i1)) (cp_at cps i2)) 3)
      else find_avgCp positions cps panel ts)"

text \<open>One round of the force loop; the state is \<open>(dragForce, liftForce)\<close>.\<close>

definition add_force ::
  "PanelMethodSolver \<Rightarrow> Vector3 list \<Rightarrow> real option list \<Rightarrow>
     (nat option \<times> nat option \<times> nat option) list \<Rightarrow>
     real option \<times> real option \<Rightarrow> Panel \<Rightarrow> real option \<times> real option" where
  "add_force solver positions cps ts forces panel =
     (case find_avgCp positions cps panel ts of
        None \<Rightarrow> forces
      | Some avgCp \<Rightarrow>
          (let dynamicPressure = (1 / 2) * density solver * lengthSq (freestream solver);
               scale = num_mul (num_mul (num_mul avgCp (- 1)) dynamicPressure) (panel_area panel);
               force_x = num_mul scale (vx (panel_normal panel));
               force_y = num_mul scale (vy (panel_normal panel));
               force_z = num_mul scale (vz (panel_normal panel));
               dragDir = normalize_v (freestream solver);
               liftDir = Vector3 0 1 0;
               force_dot = (\<lambda>d. num_add (num_add (num_mul force_x (vx d)) (num_mul force_y (vy d)))
                                    (num_mul force_z (vz d)))
           in (num_add (fst forces) (force_dot dragDir), num_add (snd forces) (force_dot liftDir))))"

definition solve :: "PanelMethodSolver \<Rightarrow> BufferGeometry \<Rightarrow> CFDResult" where
  "solve solver geo =
     (let positions = position geo;
          ts = triangles geo;
          panels = map (make_panel positions) ts;
          cps = map (pressureCoefficient solver panels) positions;
          forces = foldl (add_force solver positions cps ts) (Some 0, Some 0) panels
      in \<lparr>cfd_drag = fst forces,
          cfd_lift = snd forces,
          pressureCoefficients = cps,
          velocities = map (totalVelocity solver panels) positions\<rparr>)"

definition calculateDragCoefficient :: "PanelMethodSolver \<Rightarrow> BufferGeometry \<Rightarrow> real \<Rightarrow> real option" where
  "calculateDragCoefficient solver geo referenceArea =
     (let result = solve solver geo;
          dynamicPressure = (1 / 2) * density solver * lengthSq (freestream solver)
      in num_div (cfd_drag result) (dynamicPressure * referenceArea))"

definition calculateLiftCoefficient :: "PanelMethodSolver \<Rightarrow> BufferGeometry \<Rightarrow> real \<Rightarrow> real option" where
  "calculateLiftCoefficient solver geo referenceArea =
     (let result = solve solver geo;
          dynamicPressure = (1 / 2) * density solver * lengthSq (freestream solver)
      in num_div (cfd_lift result) (dynamicPressure * referenceArea))"

section \<open>The objective of the optimisation page\<close>

text \<open>\<open>String.prototype.includes\<close>: does \<open>pat\<close> occur in \<open>s\<close> as a contiguous piece?\<close>

fun starts_with :: "string \<Rightarrow> string \<Rightarrow> bool" where
  "starts_with s [] = True"
| "starts_with [] (c # cs) = False"
| "starts_with (a # s) (c # cs) = (a = c \<and> starts_with s cs)"

fun str_includes :: "string \<Rightarrow> string \<Rightarrow> bool" where
  "str_includes [] pat = (pat = [])"
| "str_includes (a # s) pat = (starts_with (a # s) pat \<or> str_includes s pat)"

text \<open>
  The block \<open>Fitness based on optimization goal\<close> of \<open>objectiveFunction\<close>, for finite
  coefficients \<open>cd\<close> and \<open>cl\<close>.
\<close>

definition objective_fitness :: "string \<Rightarrow> real \<Rightarrow> real \<Rightarrow> real" where
  "objective_fitness optimizationGoal cd cl =
     (if str_includes optimizationGoal ''Minimize drag'' then - cd
      else if str_includes optimizationGoal ''Maximize L/D'' then
        (if \<bar>cd\<bar> > 1 / 1000 then cl / cd else 0)
      else if str_includes optimizationGoal ''Maximize downforce'' then - cl
      else - cd)"

section \<open>The invariant of the data model, and inputs for the examples\<close>

text \<open>A gene's value lies within its inclusive bounds.\<close>

definition within_bounds :: "Gene \<Rightarrow> bool" where
  "within_bounds g = (gene_min g \<le> gene_value g \<and> gene_value g \<le> gene_max g)"

text \<open>
  The triangles of a mesh: the complete groups of three vertex numbers of its index.
\<close>

fun index_triples :: "nat list \<Rightarrow> (nat \<times> nat \<times> nat) list" where
  "index_triples (i0 # i1 # i2 # rest) = (i0, i1, i2) # index_triples rest"
| "index_triples _ = []"

definition mesh_triangles :: "BufferGeometry \<Rightarrow> (nat \<times> nat \<times> nat) list" where
  "mesh_triangles geo = (case index geo of None \<Rightarrow> [] | Some indices \<Rightarrow> index_triples indices)"

text \<open>
  A triangle of a mesh with \<open>vertexCount\<close> vertices is valid when its three vertex
  numbers are in range and differ from one another.
\<close>

definition valid_triangle :: "nat \<Rightarrow> nat \<times> nat \<times> nat \<Rightarrow> bool" where
  "valid_triangle vertexCount t = (case t of (a, b, c) \<Rightarrow>
     a < vertexCount \<and> b < vertexCount \<and> c < vertexCount \<and> a \<noteq> b \<and> b \<noteq> c \<and> a \<noteq> c)"

text \<open>
  A mesh with \<open>vertexCount\<close> vertices whose index is exactly \<open>triangleCount\<close> groups of
  three, every one a valid triangle.
\<close>

definition mesh_ok :: "BufferGeometry \<Rightarrow> nat \<Rightarrow> nat \<Rightarrow> bool" where
  "mesh_ok geo vertexCount triangleCount =
     (length (position geo) = vertexCount \<and>
      (case index geo of
         None \<Rightarrow> False
       | Some indices \<Rightarrow>
           length indices = 3 * triangleCount \<and>
           length (index_triples indices) = triangleCount \<and>
           list_all (valid_triangle vertexCount) (index_triples indices)))"

text \<open>The area of a triangle of a mesh, as the solver computes it for the panel.\<close>

definition triangle_area :: "Vector3 list \<Rightarrow> nat \<times> nat \<times> nat \<Rightarrow> real" where
  "triangle_area positions t = (case t of (a, b, c) \<Rightarrow>
     panel_area (make_panel positions (Some a, Some b, Some c)))"

text \<open>
  The tip triangles of an ogive with \<open>segments\<close> segments: the first and the third
  corner are on the first ring, whose vertices have the numbers \<open>0, \<dots>, segments\<close>.
\<close>

definition tip_triangle :: "nat \<Rightarrow> nat \<times> nat \<times> nat \<Rightarrow> bool" where
  "tip_triangle segments t = (case t of (a, b, c) \<Rightarrow> a \<le> segments \<and> c \<le> segments)"

text \<open>
  The \<open>fineness\<close> gene of the bullet train scenario (scenarios.ts) at its upper bound:
  the number that the literal \<open>0.9\<close> denotes is the double nearest to 0.9.
\<close>

definition fineness_gene :: Gene where
  "fineness_gene =
     \<lparr>gene_name = ''fineness'', gene_value = round_double (9 / 10), gene_min = 1 / 2,
      gene_max = round_double (9 / 10)\<rparr>"

definition fineness_individual :: Individual where
  "fineness_individual =
     \<lparr>genes = [fineness_gene], fitness = 0, geometry = None, drag = None, lift = None\<rparr>"

text \<open>The same gene one double above its upper bound.\<close>

definition overshoot_gene :: Gene where
  "overshoot_gene = fineness_gene\<lparr>gene_value := 4053239664633447 / 4503599627370496\<rparr>"

definition overshoot_individual :: Individual where
  "overshoot_individual =
     \<lparr>genes = [overshoot_gene], fitness = 0, geometry = None, drag = None, lift = None\<rparr>"

text \<open>The configuration \<open>{}\<close>: every field takes its default.\<close>

definition default_config :: PartialGAConfig where
  "default_config =
     \<lparr>opt_populationSize = None, opt_mutationRate = None, opt_crossoverRate = None,
      opt_elitismCount = None, opt_tournamentSize = None\<rparr>"

text \<open>A source of draws that always returns 0.1875.\<close>

definition low_rng :: rng where
  "low_rng k = 3 / 16"

text \<open>A source of draws that always returns 0.5.\<close>

definition half_rng :: rng where
  "half_rng k = 1 / 2"

text \<open>The \<open>length\<close> gene of the bullet train scenario (scenarios.ts), with value \<open>v\<close>.\<close>

definition length_gene :: "real \<Rightarrow> Gene" where
  "length_gene v = \<lparr>gene_name = ''length'', gene_value = v, gene_min = 5, gene_max = 12\<rparr>"

definition example_individual :: "real \<Rightarrow> real \<Rightarrow> Individual" where
  "example_individual v f =
     \<lparr>genes = [length_gene v], fitness = f, geometry = None, drag = None, lift = None\<rparr>"

definition example_config :: PartialGAConfig where
  "example_config =
     \<lparr>opt_populationSize = Some 2, opt_mutationRate = None, opt_crossoverRate = None,
      opt_elitismCount = Some 1, opt_tournamentSize = Some 1\<rparr>"

definition zero_config :: PartialGAConfig where
  "zero_config =
     \<lparr>opt_populationSize = Some 0, opt_mutationRate = Some 0, opt_crossoverRate = Some 0,
      opt_elitismCount = Some 0, opt_tournamentSize = Some 0\<rparr>"

text \<open>An objective that prefers short chromosomes: the fitness is minus the sum of the genes.\<close>

definition example_objective :: "Gene list \<Rightarrow> ObjectiveResult" where
  "example_objective gs =
     \<lparr>result_fitness = - sum_list (map gene_value gs), result_geometry = None,
      result_drag = None, result_lift = None\<rparr>"

text \<open>An optimizer in the middle of a run: two individuals and a recorded best.\<close>

definition example_ga :: GeneticAlgorithm where
  "example_ga =
     (constructor example_config)
       \<lparr>population := [example_individual 12 1, example_individual 5 3],
        bestIndividual := Some (example_individual 10 (- 10))\<rparr>"

text \<open>A \<open>min\<close> constraint with threshold 10 and penalty 100 whose measured value is fixed.\<close>

definition min_constraint :: "real \<Rightarrow> Constraint" where
  "min_constraint measured =
     \<lparr>constraint_name = ''Min Radius'', constraint_type = CMin, constraint_value = 10,
      evaluate = (\<lambda>individual. measured), penalty = 100\<rparr>"

section \<open>Properties\<close>

lemma foldl_fitness_sum:
  "foldl (\<lambda>acc ind. acc + fitness ind) a pop = a + sum_list (map fitness pop)"
  by (induction pop arbitrary: a) simp_all

text \<open>
  Claim C9. On an empty population \<open>getAverageFitness\<close> returns exactly 0; on a
  non-empty one it returns the arithmetic mean of the individuals' fitness values.
\<close>

theorem getAverageFitness_mean:
  "(population ga = [] \<longrightarrow> getAverageFitness ga = 0) \<and>
   (population ga \<noteq> [] \<longrightarrow>
      getAverageFitness ga = sum_list (map fitness (population ga)) / real (length (population ga)))"
  by (simp add: getAverageFitness_def foldl_fitness_sum)

theorem getAverageFitness_mean_witness:
  "getAverageFitness example_ga = 2 \<and> getAverageFitness (constructor zero_config) = 0"
  using getAverageFitness_mean [of example_ga] getAverageFitness_mean [of "constructor zero_config"]
  by (simp add: example_ga_def example_individual_def constructor_def)

subsection \<open>The constructor\<close>

lemma or_default_nonzero: "d \<noteq> 0 \<Longrightarrow> or_default v d \<noteq> 0"
  by (simp add: or_default_def split: option.splits)

text \<open>
  Claim C10. A configuration field that is 0 is replaced by the built-in default
  (populationSize 50, mutationRate 0.1, crossoverRate 0.7, elitismCount 2,
  tournamentSize 3), so no field of a constructed optimizer is 0.
\<close>

theorem constructor_zero_uses_default:
  "(opt_populationSize c = Some 0 \<longrightarrow> populationSize (config (constructor c)) = 50) \<and>
   (opt_mutationRate c = Some 0 \<longrightarrow> mutationRate (config (constructor c)) = 1 / 10) \<and>
   (opt_crossoverRate c = Some 0 \<longrightarrow> crossoverRate (config (constructor c)) = 7 / 10) \<and>
   (opt_elitismCount c = Some 0 \<longrightarrow> elitismCount (config (constructor c)) = 2) \<and>
   (opt_tournamentSize c = Some 0 \<longrightarrow> tournamentSize (config (constructor c)) = 3) \<and>
   populationSize (config (constructor c)) \<noteq> 0 \<and>
   mutationRate (config (constructor c)) \<noteq> 0 \<and>
   crossoverRate (config (constructor c)) \<noteq> 0 \<and>
   elitismCount (config (constructor c)) \<noteq> 0 \<and>
   tournamentSize (config (constructor c)) \<noteq> 0"
  by (simp add: constructor_def or_default_nonzero) (simp add: or_default_def)

theorem constructor_zero_uses_default_witness:
  "config (constructor zero_config) =
     \<lparr>populationSize = 50, mutationRate = 1 / 10, crossoverRate = 7 / 10,
      elitismCount = 2, tournamentSize = 3\<rparr>"
  using constructor_zero_uses_default [of zero_config]
  by (simp add: zero_config_def constructor_def or_default_def)

subsection \<open>Constraint penalties\<close>

lemma violation_nonneg: "0 \<le> violation c v"
  by (simp add: violation_def split: ConstraintType.splits)

lemma apply_penalty_eq:
  "apply_penalty ind fit c = fit - violation c (evaluate c ind) * penalty c"
  using violation_nonneg [of c "evaluate c ind"]
  by (auto simp: apply_penalty_def Let_def)

lemma foldl_apply_penalty:
  "foldl (apply_penalty ind) fit cs =
     fit - sum_list (map (\<lambda>c. violation c (evaluate c ind) * penalty c) cs)"
  by (induction cs arbitrary: fit) (simp_all add: apply_penalty_eq)

text \<open>
  Claim C3. \<open>evaluateFitness\<close> subtracts \<open>violation * penalty\<close> from the raw fitness for
  every registered constraint, the violation being \<open>max 0 (threshold - value)\<close> for a
  \<open>min\<close> constraint, \<open>max 0 (value - threshold)\<close> for a \<open>max\<close> constraint and
  \<open>\<bar>value - threshold\<bar>\<close> for an \<open>equal\<close> constraint. A \<open>min\<close> constraint with threshold 10
  and penalty 100 subtracts exactly 300 at the measured value 7 and 0 at 12.
\<close>

theorem evaluateFitness_penalties:
  "fitness (evaluateFitness ga ind obj) =
     result_fitness (obj (genes ind))
       - sum_list (map (\<lambda>c. violation c (evaluate c ind) * penalty c) (constraints ga)) \<and>
   (constraint_type c = CMin \<longrightarrow> violation c v = max 0 (constraint_value c - v)) \<and>
   (constraint_type c = CMax \<longrightarrow> violation c v = max 0 (v - constraint_value c)) \<and>
   (constraint_type c = CEqual \<longrightarrow> violation c v = \<bar>v - constraint_value c\<bar>) \<and>
   (constraints ga = [c] \<and> constraint_type c = CMin \<and> constraint_value c = 10 \<and> penalty c = 100 \<longrightarrow>
      (evaluate c ind = 7 \<longrightarrow>
         fitness (evaluateFitness ga ind obj) = result_fitness (obj (genes ind)) - 300) \<and>
      (evaluate c ind = 12 \<longrightarrow>
         fitness (evaluateFitness ga ind obj) = result_fitness (obj (genes ind)) - 0))"
  by (simp add: evaluateFitness_def Let_def foldl_apply_penalty apply_penalty_eq violation_def)

theorem evaluateFitness_penalties_witness:
  "fitness (evaluateFitness (addConstraint example_ga (min_constraint 7))
              (example_individual 8 0) example_objective) = - 308 \<and>
   fitness (evaluateFitness (addConstraint example_ga (min_constraint 12))
              (example_individual 8 0) example_objective) = - 8"
  using evaluateFitness_penalties [of "addConstraint example_ga (min_constraint 7)"
      "example_individual 8 0" example_objective "min_constraint 7" 7]
    evaluateFitness_penalties [of "addConstraint example_ga (min_constraint 12)"
      "example_individual 8 0" example_objective "min_constraint 12" 12]
  by (simp add: addConstraint_def example_ga_def constructor_def min_constraint_def
      example_individual_def example_objective_def length_gene_def)

subsection \<open>Rounding to a double\<close>

text \<open>
  The exponent that \<open>round_double\<close> works with is the exponent of the leading binary
  digit: \<open>2 ^ e \<le> a < 2 ^ (e + 1)\<close> for \<open>e = exponent_of a\<close>.
\<close>

lemma bit_length_pos: "0 < n \<Longrightarrow> 0 < bit_length n"
  by (subst bit_length.simps) simp

lemma bit_length_bounds:
  "0 < n \<Longrightarrow> 2 ^ (bit_length n - 1) \<le> n \<and> n < 2 ^ bit_length n"
proof (induction n rule: bit_length.induct)
  case (1 n)
  show ?case
  proof (cases "n div 2 \<le> 0")
    case True
    with "1.prems" have "n = 1" by linarith
    then show ?thesis by (simp add: bit_length.simps)
  next
    case False
    then have p: "0 < n div 2" by simp
    from "1.IH" "1.prems" p have IH: "2 ^ (bit_length (n div 2) - 1) \<le> n div 2"
      "n div 2 < 2 ^ bit_length (n div 2)" by simp_all
    have b: "bit_length n = Suc (bit_length (n div 2))"
      using "1.prems" by (subst bit_length.simps) simp
    obtain m where m: "bit_length (n div 2) = Suc m" using bit_length_pos [OF p] by (cases "bit_length (n div 2)") auto
    have "2 * 2 ^ m \<le> n" using IH(1) m by simp
    moreover have "n < 2 * 2 ^ Suc m" using IH(2) m by simp
    ultimately show ?thesis by (simp add: b m)
  qed
qed

lemma two_pow_pos: "0 < two_pow e"
  by (simp add: two_pow_def)

lemma two_pow_Suc: "two_pow (e + 1) = 2 * two_pow e"
proof (cases "0 \<le> e")
  case True
  then have "nat (e + 1) = Suc (nat e)" by simp
  with True show ?thesis by (simp add: two_pow_def)
next
  case False
  then have "nat (- e) = Suc (nat (- (e + 1)))" by simp
  with False show ?thesis by (cases "e + 1 = 0") (auto simp add: two_pow_def)
qed

lemma two_pow_neg: "two_pow (- e) = 1 / two_pow e"
  by (cases "e = 0") (auto simp add: two_pow_def)

lemma floor_bounds:
  assumes "1 \<le> (a::real)"
  shows "2 ^ (bit_length \<lfloor>a\<rfloor> - 1) \<le> a \<and> a < 2 ^ bit_length \<lfloor>a\<rfloor>"
proof -
  from assms have p: "0 < \<lfloor>a\<rfloor>" by simp
  note b = bit_length_bounds [OF p]
  have "(2::int) ^ (bit_length \<lfloor>a\<rfloor> - 1) \<le> \<lfloor>a\<rfloor>" using b by simp
  then have "real_of_int (2 ^ (bit_length \<lfloor>a\<rfloor> - 1)) \<le> a" by (simp only: le_floor_iff)
  moreover have "\<lfloor>a\<rfloor> < 2 ^ bit_length \<lfloor>a\<rfloor>" using b by simp
  then have "a < real_of_int (2 ^ bit_length \<lfloor>a\<rfloor>)" by (simp only: floor_less_iff)
  ultimately show ?thesis by simp
qed

lemma exponent_of_bounds:
  assumes "0 < a"
  shows "two_pow (exponent_of a) \<le> a \<and> a < two_pow (exponent_of a + 1)"
proof (cases "1 \<le> a")
  case True
  from True have p: "0 < \<lfloor>a\<rfloor>" by simp
  obtain m where m: "bit_length \<lfloor>a\<rfloor> = Suc m"
    using bit_length_pos [OF p] by (cases "bit_length \<lfloor>a\<rfloor>") auto
  have e: "exponent_of a = int m" using True by (simp add: exponent_of_def m)
  from floor_bounds [OF True] show ?thesis
    unfolding e two_pow_Suc by (simp add: two_pow_def m)
next
  case False
  define b where "b = 1 / a"
  from False assms have b1: "1 \<le> b" by (simp add: b_def)
  have ab: "a = 1 / b" by (simp add: b_def)
  from b1 have p: "0 < \<lfloor>b\<rfloor>" by simp
  obtain m where m: "bit_length \<lfloor>b\<rfloor> = Suc m"
    using bit_length_pos [OF p] by (cases "bit_length \<lfloor>b\<rfloor>") auto
  from floor_bounds [OF b1] have lo: "2 ^ m \<le> b" and hi: "b < 2 * 2 ^ m" by (simp_all add: m)
  have tm: "two_pow (int m) = 2 ^ m" by (simp add: two_pow_def)
  have bpos: "0 < b" using b1 by simp
  have k: "int (bit_length \<lfloor>1 / a\<rfloor>) - 1 = int m" using m by (simp add: b_def)
  have eo: "exponent_of a = (if a = two_pow (- int m) then - int m else - int m - 1)"
    using False by (simp only: exponent_of_def Let_def k if_False)
  show ?thesis
  proof (cases "a = two_pow (- int m)")
    case True
    have e: "exponent_of a = - int m"
      unfolding eo using True by (rule if_P)
    show ?thesis unfolding e two_pow_Suc using True two_pow_pos [of "- int m"] by simp
  next
    case ne: False
    have e: "exponent_of a = - int m - 1"
      unfolding eo using ne by (rule if_not_P)
    have s: "two_pow (- int m - 1 + 1) = 1 / 2 ^ m" by (simp add: two_pow_neg tm)
    have h: "two_pow (- int m) = 2 * two_pow (- int m - 1)" using two_pow_Suc [of "- int m - 1"] by simp
    have "b \<noteq> 2 ^ m" using ne by (auto simp add: ab two_pow_neg tm)
    with lo have "2 ^ m < b" by simp
    then have "a < 1 / 2 ^ m" using bpos by (simp add: ab field_simps)
    moreover have "1 / (2 * 2 ^ m) < a" using hi bpos by (simp add: ab field_simps)
    then have "two_pow (- int m - 1) \<le> a" using h by (simp add: two_pow_neg tm)
    ultimately show ?thesis unfolding e s by simp
  qed
qed

text \<open>
  The values of \<open>round_double\<close> that the runs below meet.
\<close>

lemma round_double_eval:
  assumes "0 < a" and "exponent_of a = e" and "- 1022 \<le> e"
    and "two_pow (e - 52) = q" and "round_even (a / q) = n"
  shows "round_double a = of_int n * q"
  using assms by (auto simp: round_double_def Let_def max_def)

lemma round_double_half: "round_double (1 / 2) = 1 / 2"
proof -
  have "round_double (1 / 2) = of_int 4503599627370496 * (1 / 9007199254740992)"
    by (rule round_double_eval [where e = "- 1"])
      (simp_all add: exponent_of_def two_pow_def bit_length.simps round_even_def Let_def)
  then show ?thesis by simp
qed

lemma round_double_6: "round_double (6) = 6"
proof -
  have "round_double (6) = of_int 6755399441055744 * (1 / 1125899906842624)"
    by (rule round_double_eval [where e = "2"])
      (simp_all add: exponent_of_def two_pow_def bit_length.simps round_even_def Let_def)
  then show ?thesis by simp
qed

lemma round_double_12: "round_double (12) = 12"
proof -
  have "round_double (12) = of_int 6755399441055744 * (1 / 562949953421312)"
    by (rule round_double_eval [where e = "3"])
      (simp_all add: exponent_of_def two_pow_def bit_length.simps round_even_def Let_def)
  then show ?thesis by simp
qed

lemma round_double_17_4: "round_double (17 / 4) = 17 / 4"
proof -
  have "round_double (17 / 4) = of_int 4785074604081152 * (1 / 1125899906842624)"
    by (rule round_double_eval [where e = "2"])
      (simp_all add: exponent_of_def two_pow_def bit_length.simps round_even_def Let_def)
  then show ?thesis by simp
qed

lemma round_double_17_2: "round_double (17 / 2) = 17 / 2"
proof -
  have "round_double (17 / 2) = of_int 4785074604081152 * (1 / 562949953421312)"
    by (rule round_double_eval [where e = "3"])
      (simp_all add: exponent_of_def two_pow_def bit_length.simps round_even_def Let_def)
  then show ?thesis by simp
qed

lemma round_double_13_16: "round_double (13 / 16) = 13 / 16"
proof -
  have "round_double (13 / 16) = of_int 7318349394477056 * (1 / 9007199254740992)"
    by (rule round_double_eval [where e = "- 1"])
      (simp_all add: exponent_of_def two_pow_def bit_length.simps round_even_def Let_def)
  then show ?thesis by simp
qed

lemma round_double_9_10: "round_double (9 / 10) = 8106479329266893 / 9007199254740992"
proof -
  have "round_double (9 / 10) = of_int 8106479329266893 * (1 / 9007199254740992)"
    by (rule round_double_eval [where e = "- 1"])
      (simp_all add: exponent_of_def two_pow_def bit_length.simps round_even_def Let_def)
  then show ?thesis by simp
qed

lemma round_double_blend1: "round_double (24319437987800679 / 144115188075855872) = 3039929748475085 / 18014398509481984"
proof -
  have "round_double (24319437987800679 / 144115188075855872) = of_int 6079859496950170 * (1 / 36028797018963968)"
    by (rule round_double_eval [where e = "- 3"])
      (simp_all add: exponent_of_def two_pow_def bit_length.simps round_even_def Let_def)
  then show ?thesis by simp
qed

lemma round_double_blend2: "round_double (105384231280469609 / 144115188075855872) = 6586514455029351 / 9007199254740992"
proof -
  have "round_double (105384231280469609 / 144115188075855872) = of_int 6586514455029351 * (1 / 9007199254740992)"
    by (rule round_double_eval [where e = "- 1"])
      (simp_all add: exponent_of_def two_pow_def bit_length.simps round_even_def Let_def)
  then show ?thesis by simp
qed

lemma round_double_blend3: "round_double (16212958658533787 / 18014398509481984) = 4053239664633447 / 4503599627370496"
proof -
  have "round_double (16212958658533787 / 18014398509481984) = of_int 8106479329266894 * (1 / 9007199254740992)"
    by (rule round_double_eval [where e = "- 1"])
      (simp_all add: exponent_of_def two_pow_def bit_length.simps round_even_def Let_def)
  then show ?thesis by simp
qed

subsection \<open>Crossover and mutation and the bounds of a gene\<close>

lemma convex_in_bounds:
  fixes a :: real
  assumes "0 \<le> a" "a \<le> 1" "lo \<le> x" "x \<le> hi" "lo \<le> y" "y \<le> hi"
  shows "lo \<le> a * x + (1 - a) * y \<and> a * x + (1 - a) * y \<le> hi"
proof -
  have "0 \<le> a * (x - lo) + (1 - a) * (y - lo)"
    using assms by (intro add_nonneg_nonneg mult_nonneg_nonneg) simp_all
  moreover have "0 \<le> a * (hi - x) + (1 - a) * (hi - y)"
    using assms by (intro add_nonneg_nonneg mult_nonneg_nonneg) simp_all
  ultimately show ?thesis by (simp add: algebra_simps)
qed

lemma crossover_loop_error:
  "crossover_loop rnd k rate gs genes2 i = (Inl e, k') \<Longrightarrow> length genes2 < i + length gs"
proof (induction gs arbitrary: k i)
  case Nil
  then show ?case by simp
next
  case (Cons g gs)
  then show ?case
    by (fastforce simp: Let_def split: if_splits prod.splits sum.splits)
qed

lemma mutate_loop_result:
  "mutate_loop rnd k rate gs = (out, k') \<Longrightarrow>
     length out = length gs \<and>
     (\<forall>j < length gs. out ! j = gs ! j \<or> (\<exists>n. out ! j = mutate_gene (gs ! j) (rnd n)))"
proof (induction gs arbitrary: k out)
  case Nil
  then show ?case by simp
next
  case (Cons g gs)
  then show ?case
    by (fastforce simp: Let_def nth_Cons split: if_splits prod.splits nat.splits)
qed


lemma mutate_gene_within:
  "gene_min g \<le> gene_max g \<Longrightarrow> within_bounds (mutate_gene g r)"
  by (simp add: within_bounds_def mutate_gene_def)

lemma mutate_gene_bounds:
  "gene_min (mutate_gene g r) = gene_min g \<and> gene_max (mutate_gene g r) = gene_max g \<and>
   gene_name (mutate_gene g r) = gene_name g"
  by (simp add: mutate_gene_def)

text \<open>
  The mutation clamps, so \<open>mutate\<close> keeps every gene that is within its bounds within
  them, whatever the draws.
\<close>

lemma mutate_keeps_bounds:
  assumes "mutate rnd k ga individual = (mutated, k')"
  shows "length (genes mutated) = length (genes individual) \<and>
         (\<forall>i < length (genes individual).
            within_bounds (genes individual ! i) \<longrightarrow>
            gene_min (genes mutated ! i) = gene_min (genes individual ! i) \<and>
            gene_max (genes mutated ! i) = gene_max (genes individual ! i) \<and>
            within_bounds (genes mutated ! i))"
proof -
  obtain out where m: "mutate_loop rnd k (mutationRate (config ga)) (genes individual) = (out, k')"
    and mutated: "mutated = individual\<lparr>genes := out\<rparr>"
    using assms by (auto simp: mutate_def split: prod.splits)
  note M = mutate_loop_result [OF m]
  have "gene_min (out ! i) = gene_min (genes individual ! i) \<and>
        gene_max (out ! i) = gene_max (genes individual ! i) \<and> within_bounds (out ! i)"
    if i: "i < length (genes individual)" and b: "within_bounds (genes individual ! i)" for i
  proof -
    from M i consider "out ! i = genes individual ! i"
      | n where "out ! i = mutate_gene (genes individual ! i) (rnd n)" by auto
    then show ?thesis
    proof cases
      case 1
      with b show ?thesis by simp
    next
      case 2
      from b have "gene_min (genes individual ! i) \<le> gene_max (genes individual ! i)"
        by (simp add: within_bounds_def)
      from mutate_gene_within [OF this] 2 show ?thesis
        by (simp add: mutate_gene_bounds)
    qed
  qed
  with M show ?thesis by (simp add: mutated)
qed

lemma fineness_gene_value: "fineness_gene =
  \<lparr>gene_name = ''fineness'', gene_value = 8106479329266893 / 9007199254740992, gene_min = 1 / 2,
   gene_max = 8106479329266893 / 9007199254740992\<rparr>"
  by (simp add: fineness_gene_def round_double_9_10)

text \<open>
  Claim C1 fails on the code: \<open>crossover\<close> stores the blend without a clamp, and the
  blend of two values at a bound can round to the next double beyond it. Both parents
  have the \<open>fineness\<close> gene at its upper bound 0.9, within its bounds; every draw is
  0.1875, so the blend fires with \<open>alpha = 0.1875\<close> and the mutation, which would
  clamp, does not fire (0.1875 is not below the mutation rate 0.1). The offspring's
  gene is 0.9000000000000001, above its upper bound.
\<close>

theorem crossover_leaves_bounds:
  "within_bounds fineness_gene \<and>
   crossover low_rng 0 (constructor default_config) fineness_individual fineness_individual
     = (Inr overshoot_individual, 2) \<and>
   mutate low_rng 2 (constructor default_config) overshoot_individual = (overshoot_individual, 3) \<and>
   gene_max overshoot_gene = gene_max fineness_gene \<and>
   gene_max overshoot_gene < gene_value overshoot_gene \<and>
   \<not> within_bounds overshoot_gene"
proof -
  have c: "crossover low_rng 0 (constructor default_config) fineness_individual fineness_individual
     = (Inr overshoot_individual, 2)"
    by (simp add: crossover_def constructor_def default_config_def or_default_def low_rng_def
        fineness_individual_def overshoot_individual_def overshoot_gene_def fineness_gene_value
        round_double_13_16 round_double_blend1 round_double_blend2 round_double_blend3)
  have m: "mutate low_rng 2 (constructor default_config) overshoot_individual = (overshoot_individual, 3)"
    by (simp add: mutate_def constructor_def default_config_def or_default_def low_rng_def
        overshoot_individual_def)
  show ?thesis
    by (simp add: c m) (simp add: within_bounds_def overshoot_gene_def fineness_gene_value)
qed

lemma half_rng_range: "\<forall>n. 0 \<le> half_rng n \<and> half_rng n < 1"
  by (simp add: half_rng_def)

lemma example_mutate:
  "mutate (\<lambda>k. 0) 0 example_ga (example_individual 5 0) = (example_individual 5 0, 2)"
  by (simp add: mutate_def example_ga_def constructor_def example_config_def or_default_def
      example_individual_def length_gene_def mutate_gene_def mutation_def)

lemma length_gene_sel:
  "gene_min (length_gene v) = 5" "gene_max (length_gene v) = 12" "gene_value (length_gene v) = v"
  by (simp_all add: length_gene_def)

subsection \<open>The best-so-far record never gets worse\<close>

lemma evaluate_and_sort_fields:
  "bestIndividual (evaluate_and_sort ga obj) = bestIndividual ga"
  "config (evaluate_and_sort ga obj) = config ga"
  "set (population (evaluate_and_sort ga obj)) = (\<lambda>ind. evaluateFitness ga ind obj) ` set (population ga)"
  by (simp_all add: evaluate_and_sort_def)

lemma sorted_head_least:
  "sorted (map f (x # xs)) \<Longrightarrow> y \<in> set (x # xs) \<Longrightarrow> f x \<le> f y"
  by auto

lemma evaluate_and_sort_top:
  assumes "population (evaluate_and_sort ga obj) = t # rest"
    and "ind \<in> set (population (evaluate_and_sort ga obj))"
  shows "fitness ind \<le> fitness t"
proof -
  have "sorted (map (\<lambda>ind. - fitness ind) (population (evaluate_and_sort ga obj)))"
    by (simp add: evaluate_and_sort_def)
  with assms have "- fitness t \<le> - fitness ind"
    using sorted_head_least [of "\<lambda>ind. - fitness ind" t rest ind] by simp
  then show ?thesis by simp
qed

lemma evolve_cases:
  assumes "evolve rnd k ga obj = (e, ga', k')"
  shows "(population (evaluate_and_sort ga obj) = [] \<and> e = Some TypeError \<and>
            ga' = evaluate_and_sort ga obj) \<or>
         (\<exists>t rest. population (evaluate_and_sort ga obj) = t # rest \<and>
            bestIndividual ga' = bestIndividual (track_best (evaluate_and_sort ga obj) t) \<and>
            fitnessHistory ga' = fitnessHistory ga @ [fitness t] \<and>
            (e = None \<longrightarrow> generation ga' = Suc (generation ga)))"
  using assms
  by (auto simp: evolve_def Let_def track_best_def evaluate_and_sort_def
      split: list.splits sum.splits prod.splits)

text \<open>
  Claim C2. Whatever the objective and the draws, and whether \<open>evolve\<close> returns or
  throws: a recorded best individual \<open>b\<close> is either kept, or replaced by the top
  individual of the population just evaluated, and then only when that one's fitness is
  strictly greater. So the best-so-far fitness after the call is at least what it was.
\<close>

theorem best_so_far_monotone:
  assumes "evolve rnd k ga obj = (e, ga', k')"
    and "bestIndividual ga = Some b"
  shows "\<exists>b'. bestIndividual ga' = Some b' \<and> fitness b \<le> fitness b' \<and>
           (b' = b \<or>
            (fitness b < fitness b' \<and>
             b' \<in> (\<lambda>ind. evaluateFitness ga ind obj) ` set (population ga) \<and>
             (\<forall>ind \<in> set (population ga). fitness (evaluateFitness ga ind obj) \<le> fitness b')))"
proof -
  from evolve_cases [OF assms(1)] show ?thesis
  proof (elim disjE exE conjE)
    assume "ga' = evaluate_and_sort ga obj"
    with assms(2) show ?thesis by (simp add: evaluate_and_sort_fields)
  next
    fix t rest
    assume pop: "population (evaluate_and_sort ga obj) = t # rest"
      and best: "bestIndividual ga' = bestIndividual (track_best (evaluate_and_sort ga obj) t)"
    have t_in: "t \<in> (\<lambda>ind. evaluateFitness ga ind obj) ` set (population ga)"
      using pop evaluate_and_sort_fields(3) [of ga obj] by (metis list.set_intros(1))
    have t_max: "\<forall>ind \<in> set (population ga). fitness (evaluateFitness ga ind obj) \<le> fitness t"
      using evaluate_and_sort_top [OF pop] evaluate_and_sort_fields(3) [of ga obj] by blast
    show ?thesis
    proof (cases "fitness t > fitness b")
      case True
      with best assms(2) have "bestIndividual ga' = Some t"
        by (simp add: track_best_def evaluate_and_sort_fields)
      with True t_in t_max show ?thesis by simp
    next
      case False
      with best assms(2) have "bestIndividual ga' = Some b"
        by (simp add: track_best_def evaluate_and_sort_fields)
      then show ?thesis by simp
    qed
  qed
qed


lemma example_evolve:
  "evolve half_rng 0 example_ga example_objective =
     (None,
      example_ga\<lparr>population := [example_individual 5 (- 5), example_individual 12 0],
                 generation := 1,
                 bestIndividual := Some (example_individual 5 (- 5)),
                 fitnessHistory := [- 5]\<rparr>,
      5)"
  by (simp add: evolve_def example_ga_def constructor_def example_config_def or_default_def
      example_individual_def length_gene_def half_rng_def example_objective_def evaluate_and_sort_def
      evaluateFitness_def track_best_def loop_count_def make_offspring_def tournamentSelection_def
      pick_def crossover_def mutate_def round_double_half round_double_6 round_double_12
      round_double_17_4 round_double_17_2)

theorem best_so_far_monotone_witness:
  "bestIndividual example_ga = Some (example_individual 10 (- 10)) \<and>
   bestIndividual (fst (snd (evolve half_rng 0 example_ga example_objective)))
     = Some (example_individual 5 (- 5)) \<and>
   fitness (example_individual 10 (- 10)) \<le> fitness (example_individual 5 (- 5))"
proof -
  have b: "bestIndividual example_ga = Some (example_individual 10 (- 10))"
    by (simp add: example_ga_def)
  from best_so_far_monotone [OF example_evolve b] b show ?thesis
    by (simp add: example_evolve)
qed


subsection \<open>The size of a mutation\<close>

lemma mutation_abs:
  assumes "0 \<le> r" "r < 1" "gene_min g \<le> gene_max g"
  shows "\<bar>mutation g r\<bar> \<le> (1 / 10) * (gene_max g - gene_min g)"
proof -
  define w where "w = gene_max g - gene_min g"
  have w: "0 \<le> w" using assms(3) by (simp add: w_def)
  have "\<bar>r - 1 / 2\<bar> \<le> 1 / 2" using assms(1,2) by linarith
  then have "\<bar>r - 1 / 2\<bar> * w \<le> (1 / 2) * w"
    using w by (rule mult_right_mono)
  moreover have "\<bar>mutation g r\<bar> = \<bar>r - 1 / 2\<bar> * w * (2 / 10)"
    using w by (simp add: mutation_def w_def abs_mult)
  ultimately show ?thesis
    unfolding w_def by linarith
qed

lemma mutation_reachable:
  assumes "- (1 / 10) * (gene_max g - gene_min g) \<le> d" "d < (1 / 10) * (gene_max g - gene_min g)"
  shows "\<exists>r. 0 \<le> r \<and> r < 1 \<and> mutation g r = d"
proof -
  define w where "w = gene_max g - gene_min g"
  from assms have lo: "- (1 / 10) * w \<le> d" and hi: "d < (1 / 10) * w"
    by (simp_all add: w_def)
  then have w: "0 < w" by linarith
  define r where "r = 5 * d / w + 1 / 2"
  have "mutation g r = d" using w by (simp add: mutation_def r_def w_def [symmetric] field_simps)
  moreover have "0 \<le> r" using lo w by (simp add: r_def field_simps)
  moreover have "r < 1" using hi w by (simp add: r_def field_simps)
  ultimately show ?thesis by blast
qed

text \<open>
  Claim C4, as amended. When mutation fires on a gene (the first draw is below
  \<open>mutationRate\<close>), the perturbation for the draw \<open>r\<close> in \<open>[0, 1)\<close> has magnitude at most
  \<open>0.1 * (max - min)\<close>, every perturbation from \<open>- 0.1 * (max - min)\<close> up to, but not
  including, \<open>0.1 * (max - min)\<close> is reached by some draw, and the sum is clamped back
  into \<open>[min, max]\<close>.
\<close>

theorem mutation_magnitude:
  assumes "0 \<le> r" "r < 1" "gene_min g \<le> gene_max g"
  shows "\<bar>mutation g r\<bar> \<le> (1 / 10) * (gene_max g - gene_min g) \<and>
         (\<forall>d. - (1 / 10) * (gene_max g - gene_min g) \<le> d \<and> d < (1 / 10) * (gene_max g - gene_min g)
              \<longrightarrow> (\<exists>r'. 0 \<le> r' \<and> r' < 1 \<and> mutation g r' = d)) \<and>
         gene_value (mutate_gene g r) = max (gene_min g) (min (gene_max g) (gene_value g + mutation g r)) \<and>
         within_bounds (mutate_gene g r) \<and>
         mutate_loop rnd k rate [g] =
           (if rnd k < rate then ([mutate_gene g (rnd (Suc k))], Suc (Suc k)) else ([g], Suc k))"
  using mutation_abs [OF assms] mutation_reachable [of g] mutate_gene_within [OF assms(3)]
  by (simp add: mutate_gene_def)

text \<open>
  The claim as stated fails: no draw gives the \<open>length\<close> gene, of range 7, a
  perturbation of magnitude \<open>0.2 * 7\<close>.
\<close>

theorem mutation_magnitude_counterexample:
  "\<not> (\<exists>r. 0 \<le> r \<and> r < 1 \<and>
         \<bar>mutation (length_gene 8) r\<bar> = (2 / 10) * (gene_max (length_gene 8) - gene_min (length_gene 8)))"
proof
  assume "\<exists>r. 0 \<le> r \<and> r < 1 \<and>
         \<bar>mutation (length_gene 8) r\<bar> = (2 / 10) * (gene_max (length_gene 8) - gene_min (length_gene 8))"
  then obtain r where r: "0 \<le> r" "r < 1"
    and m: "\<bar>mutation (length_gene 8) r\<bar> = (2 / 10) * (gene_max (length_gene 8) - gene_min (length_gene 8))"
    by blast
  from mutation_abs [OF r, of "length_gene 8"] m show False
    by (simp add: length_gene_def)
qed

theorem mutation_magnitude_witness:
  "\<bar>mutation (length_gene 8) 0\<bar> = 7 / 10 \<and>
   mutation (length_gene 8) (3 / 4) = 35 / 100 \<and>
   gene_value (mutate_gene (length_gene 5) 0) = 5 \<and>
   gene_value (mutate_gene (length_gene 8) 0) = 73 / 10"
  using mutation_magnitude [of 0 "length_gene 8" half_rng 0 1]
  by (simp add: mutation_def mutate_gene_def length_gene_def)

subsection \<open>Initialising the population\<close>

lemma random_genes_result:
  "random_genes rnd k t = (out, k') \<Longrightarrow>
     k' = k + length t \<and> length out = length t \<and>
     (\<forall>j < length t. out ! j = (t ! j)\<lparr>gene_value :=
        gene_min (t ! j) + rnd (k + j) * (gene_max (t ! j) - gene_min (t ! j))\<rparr>)"
proof (induction t arbitrary: k out)
  case Nil
  then show ?case by simp
next
  case (Cons g gs)
  then show ?case
    by (fastforce simp: Let_def nth_Cons split: prod.splits nat.splits)
qed

lemma random_individuals_result:
  "random_individuals rnd k n t = (pop, k') \<Longrightarrow>
     k' = k + n * length t \<and> length pop = n \<and>
     (\<forall>i < n. fitness (pop ! i) = 0 \<and> genes (pop ! i) = fst (random_genes rnd (k + i * length t) t))"
proof (induction n arbitrary: k pop k')
  case 0
  then show ?case by simp
next
  case (Suc n)
  obtain gs k1 where g: "random_genes rnd k t = (gs, k1)" by (cases "random_genes rnd k t")
  obtain rest k2 where r: "random_individuals rnd k1 n t = (rest, k2)"
    by (cases "random_individuals rnd k1 n t")
  from random_genes_result [OF g] have k1: "k1 = k + length t" by simp
  from Suc.prems g r have pop: "pop = \<lparr>genes = gs, fitness = 0, geometry = None, drag = None, lift = None\<rparr> # rest"
    and k': "k' = k2" by simp_all
  from Suc.IH [OF r] k1 g show ?case
    by (auto simp: pop k' nth_Cons add.assoc add.commute split: nat.splits)
qed

lemma initializePopulation_best_unchanged:
  "bestIndividual (fst (initializePopulation rnd k ga t)) = bestIndividual ga"
  by (simp add: initializePopulation_def split: prod.splits)


lemma initializePopulation_resets:
  assumes rnd: "\<forall>n. 0 \<le> rnd n \<and> rnd n < 1"
    and t: "\<forall>g \<in> set t. gene_min g \<le> gene_max g"
    and n: "populationSize (config ga) = real n"
    and init: "initializePopulation rnd k ga t = (ga', k')"
  shows "generation ga' = 0 \<and> fitnessHistory ga' = [] \<and> length (population ga') = n \<and>
         (\<forall>i < n. fitness (population ga' ! i) = 0 \<and>
            length (genes (population ga' ! i)) = length t \<and>
            (\<forall>j < length t.
               gene_name (genes (population ga' ! i) ! j) = gene_name (t ! j) \<and>
               gene_min (genes (population ga' ! i) ! j) = gene_min (t ! j) \<and>
               gene_max (genes (population ga' ! i) ! j) = gene_max (t ! j) \<and>
               within_bounds (genes (population ga' ! i) ! j)))"
proof -
  obtain pop where p: "random_individuals rnd k n t = (pop, k')"
    and ga': "ga' = ga\<lparr>population := pop, generation := 0, fitnessHistory := []\<rparr>"
    using init n by (auto simp: initializePopulation_def loop_count_def split: prod.splits)
  note P = random_individuals_result [OF p]
  have "within_bounds ((t ! j)\<lparr>gene_value := gene_min (t ! j) + rnd m * (gene_max (t ! j) - gene_min (t ! j))\<rparr>)"
    if "j < length t" for j m
  proof -
    from that t have le: "gene_min (t ! j) \<le> gene_max (t ! j)" by simp
    have "0 \<le> rnd m" "rnd m \<le> 1" using rnd by (simp_all add: less_imp_le)
    from convex_in_bounds [OF this, of "gene_min (t ! j)" "gene_max (t ! j)" "gene_max (t ! j)" "gene_min (t ! j)"] le
    show ?thesis by (simp add: within_bounds_def algebra_simps)
  qed
  moreover have "genes (pop ! i) ! j = (t ! j)\<lparr>gene_value :=
        gene_min (t ! j) + rnd (k + i * length t + j) * (gene_max (t ! j) - gene_min (t ! j))\<rparr>
      \<and> length (genes (pop ! i)) = length t"
    if "i < n" "j < length t" for i j
    using P that random_genes_result [of rnd "k + i * length t" t "fst (random_genes rnd (k + i * length t) t)"
        "snd (random_genes rnd (k + i * length t) t)"]
    by simp
  moreover have "length (genes (pop ! i)) = length t" if "i < n" for i
    using P that random_genes_result [of rnd "k + i * length t" t "fst (random_genes rnd (k + i * length t) t)"
        "snd (random_genes rnd (k + i * length t) t)"]
    by simp
  ultimately show ?thesis
    using P by (simp add: ga')
qed

lemma example_initial:
  "initializePopulation half_rng 0 (constructor example_config) [length_gene 8] =
     ((constructor example_config)
        \<lparr>population := [example_individual (17 / 2) 0, example_individual (17 / 2) 0]\<rparr>, 2)"
  by (simp add: initializePopulation_def constructor_def example_config_def or_default_def
      loop_count_def numeral_2_eq_2 example_individual_def length_gene_def half_rng_def)

lemma evolve_sets_best:
  assumes "evolve rnd k ga obj = (e, ga', k')" and "population ga \<noteq> []"
  shows "bestIndividual ga' \<noteq> None"
proof -
  have "population (evaluate_and_sort ga obj) \<noteq> []"
    using assms(2) evaluate_and_sort_fields(3) [of ga obj] by (metis image_is_empty set_empty)
  with evolve_cases [OF assms(1)] show ?thesis
    by (auto simp: track_best_def split: option.splits)
qed

lemma example_first_generation:
  "evolve half_rng 2
     ((constructor example_config)
        \<lparr>population := [example_individual (17 / 2) 0, example_individual (17 / 2) 0]\<rparr>)
     example_objective =
   (None,
    (constructor example_config)
      \<lparr>population := [example_individual (17 / 2) (- (17 / 2)), example_individual (17 / 2) 0],
       generation := 1,
       bestIndividual := Some (example_individual (17 / 2) (- (17 / 2))),
       fitnessHistory := [- (17 / 2)]\<rparr>,
    7)"
  by (simp add: evolve_def constructor_def example_config_def or_default_def
      example_individual_def length_gene_def half_rng_def example_objective_def evaluate_and_sort_def
      evaluateFitness_def track_best_def loop_count_def make_offspring_def tournamentSelection_def
      pick_def crossover_def mutate_def round_double_half round_double_6 round_double_12
      round_double_17_4 round_double_17_2)

text \<open>
  Claim C5 fails on the code: \<open>initializePopulation\<close> resets the generation counter and
  the history and fills the population, but it leaves the best-so-far record as it
  was. Here an optimizer is initialised, runs one generation and is initialised again:
  the record of the first run is still there.
\<close>

theorem initializePopulation_keeps_best_record:
  "getBest (fst (initializePopulation half_rng 0 (constructor example_config) [length_gene 8])) = None \<and>
   getBest (fst (snd (evolve half_rng 2
      (fst (initializePopulation half_rng 0 (constructor example_config) [length_gene 8]))
      example_objective))) = Some (example_individual (17 / 2) (- (17 / 2))) \<and>
   getBest (fst (initializePopulation half_rng 7
      (fst (snd (evolve half_rng 2
         (fst (initializePopulation half_rng 0 (constructor example_config) [length_gene 8]))
         example_objective)))
      [length_gene 8])) = Some (example_individual (17 / 2) (- (17 / 2)))"
  by (simp add: getBest_def initializePopulation_best_unchanged example_initial example_first_generation)
    (simp add: constructor_def)

subsection \<open>The objective\<close>

text \<open>
  Claim C8. The fitness follows the scenario goal: a goal with \<open>Minimize drag\<close> gives
  \<open>- cd\<close>; otherwise a goal with \<open>Maximize L/D\<close> gives \<open>cl / cd\<close> when \<open>\<bar>cd\<bar> > 0.001\<close>
  and 0 when not; otherwise a goal with \<open>Maximize downforce\<close> gives \<open>- cl\<close>; any other
  goal gives \<open>- cd\<close>.
\<close>

theorem objective_fitness_by_goal:
  "(str_includes goal ''Minimize drag'' \<longrightarrow> objective_fitness goal cd cl = - cd) \<and>
   (\<not> str_includes goal ''Minimize drag'' \<and> str_includes goal ''Maximize L/D'' \<longrightarrow>
      (\<bar>cd\<bar> > 1 / 1000 \<longrightarrow> objective_fitness goal cd cl = cl / cd) \<and>
      (\<bar>cd\<bar> \<le> 1 / 1000 \<longrightarrow> objective_fitness goal cd cl = 0)) \<and>
   (\<not> str_includes goal ''Minimize drag'' \<and> \<not> str_includes goal ''Maximize L/D'' \<and>
      str_includes goal ''Maximize downforce'' \<longrightarrow> objective_fitness goal cd cl = - cl) \<and>
   (\<not> str_includes goal ''Minimize drag'' \<and> \<not> str_includes goal ''Maximize L/D'' \<and>
      \<not> str_includes goal ''Maximize downforce'' \<longrightarrow> objective_fitness goal cd cl = - cd) \<and>
   objective_fitness ''Minimize drag coefficient'' cd cl = - cd \<and>
   objective_fitness ''Maximize L/D ratio'' cd cl = (if \<bar>cd\<bar> > 1 / 1000 then cl / cd else 0) \<and>
   objective_fitness ''Maximize downforce'' cd cl = - cl \<and>
   objective_fitness ''Maximize flow rate'' cd cl = - cd"
  by (simp add: objective_fitness_def)

theorem objective_fitness_by_goal_witness:
  "objective_fitness ''Minimize drag coefficient'' (1 / 2) 3 = - (1 / 2) \<and>
   objective_fitness ''Maximize L/D ratio'' (1 / 2) 3 = 6 \<and>
   objective_fitness ''Maximize L/D ratio'' (1 / 2000) 3 = 0 \<and>
   objective_fitness ''Maximize downforce'' (1 / 2) 3 = - 3 \<and>
   objective_fitness ''Maximize power coefficient'' (1 / 2) 3 = - (1 / 2)"
  using objective_fitness_by_goal [of "''Minimize drag coefficient''" "1 / 2" 3]
    objective_fitness_by_goal [of "''Maximize L/D ratio''" "1 / 2" 3]
    objective_fitness_by_goal [of "''Maximize L/D ratio''" "1 / 2000" 3]
    objective_fitness_by_goal [of "''Maximize downforce''" "1 / 2" 3]
    objective_fitness_by_goal [of "''Maximize power coefficient''" "1 / 2" 3]
  by (simp add: objective_fitness_def)

subsection \<open>The meshes of the generators\<close>

lemma index_triples_append:
  "length xs mod 3 = 0 \<Longrightarrow> index_triples (xs @ ys) = index_triples xs @ index_triples ys"
  by (induction xs rule: index_triples.induct) simp_all

lemma length_index_triples: "length (index_triples xs) = length xs div 3"
  by (induction xs rule: index_triples.induct) simp_all

lemma length_concat_const:
  "(\<And>x. x \<in> set xs \<Longrightarrow> length (f x) = c) \<Longrightarrow> length (concat (map f xs)) = c * length xs"
  by (induction xs) simp_all

lemma index_triples_concat:
  "(\<And>x. x \<in> set xs \<Longrightarrow> length (f x) mod 3 = 0) \<Longrightarrow>
     index_triples (concat (map f xs)) = concat (map (\<lambda>x. index_triples (f x)) xs)"
  by (induction xs) (simp_all add: index_triples_append)

lemma index_triples_quad:
  "index_triples (quad_faces a s) = [(a, a + s, a + 1), (a + s, a + s + 1, a + 1)]"
  by (simp add: quad_faces_def Let_def)

lemma length_quad [simp]: "length (quad_faces a s) = 6"
  by (simp add: quad_faces_def Let_def)

lemma length_wing_indices: "length (wing_indices n m) = 6 * (n - 1) * m"
  by (simp add: wing_indices_def length_concat_const [where c = "6 * (n - 1)"]
      length_concat_const [where c = 6])

lemma index_triples_wing:
  "index_triples (wing_indices n m) =
     concat (map (\<lambda>i. concat (map (\<lambda>j.
        [(i * n + j, i * n + j + n, i * n + j + 1), (i * n + j + n, i * n + j + n + 1, i * n + j + 1)])
        [0..<n - 1])) [0..<m])"
proof -
  have inner: "index_triples (concat (map (\<lambda>j. quad_faces (i * n + j) n) [0..<n - 1])) =
      concat (map (\<lambda>j. [(i * n + j, i * n + j + n, i * n + j + 1),
                          (i * n + j + n, i * n + j + n + 1, i * n + j + 1)]) [0..<n - 1])" for i
    by (subst index_triples_concat) (simp_all add: index_triples_quad)
  have len: "length (concat (map (\<lambda>j. quad_faces (i * n + j) n) [0..<n - 1])) mod 3 = 0" for i
    by (simp add: length_concat_const [where c = 6])
  have "index_triples (wing_indices n m) =
      concat (map (\<lambda>i. index_triples (concat (map (\<lambda>j. quad_faces (i * n + j) n) [0..<n - 1]))) [0..<m])"
    unfolding wing_indices_def by (rule index_triples_concat) (rule len)
  then show ?thesis by (simp only: inner)
qed

lemma quad_in_range:
  fixes i j n m :: nat
  assumes "i < m" "j < n - 1"
  shows "i * n + j + n + 1 < (m + 1) * n"
proof -
  have "i * n + j + n + 1 < i * n + n + n" using assms(2) by simp
  also have "\<dots> = (i + 2) * n" by simp
  also have "\<dots> \<le> (m + 1) * n" using assms(1) by (intro mult_le_mono1) simp
  finally show ?thesis .
qed

lemma wing_triples_valid:
  "list_all (valid_triangle ((m + 1) * n)) (index_triples (wing_indices n m))"
proof -
  have "valid_triangle ((m + 1) * n) t" if "t \<in> set (index_triples (wing_indices n m))" for t
  proof -
    from that obtain i j where ij: "i < m" "j < n - 1"
      and t: "t = (i * n + j, i * n + j + n, i * n + j + 1) \<or>
              t = (i * n + j + n, i * n + j + n + 1, i * n + j + 1)"
      by (auto simp: index_triples_wing)
    from quad_in_range [OF ij] ij t show ?thesis
      by (auto simp: valid_triangle_def)
  qed
  then show ?thesis by (simp add: list_all_iff)
qed

lemma ogive_indices_wing: "ogive_indices segments rings = wing_indices (segments + 1) rings"
  by (simp add: ogive_indices_def wing_indices_def)

lemma wing_mesh_ok:
  "mesh_ok (createWingGeometry airfoilX airfoilY wingSpan chord segments)
     ((segments + 1) * length airfoilX) (segments * (length airfoilX - 1) * 2)"
  using wing_triples_valid [of segments "length airfoilX"]
  by (simp add: mesh_ok_def createWingGeometry_def wing_vertices_def Let_def
      length_concat_const [where c = "length airfoilX"] length_wing_indices length_index_triples)

lemma ogive_mesh_ok:
  "mesh_ok (createOgiveGeometry len radius segments rings)
     ((rings + 1) * (segments + 1)) (rings * segments * 2)"
  using wing_triples_valid [of rings "segments + 1"]
  by (simp add: mesh_ok_def createOgiveGeometry_def ogive_vertices_def ogive_indices_wing
      length_concat_const [where c = "segments + 1"] length_wing_indices length_index_triples)


lemma length_ahmed_points [simp]: "length (ahmed_points len height slantAngle) = 8"
  by (simp add: ahmed_points_def Let_def)

lemma ahmed_indices_wing:
  "ahmed_indices 8 20 = wing_indices 8 20 @
     [0, 2, 1, 0, 3, 2, 0, 4, 3, 0, 5, 4, 0, 6, 5, 0, 7, 6,
      160, 161, 162, 160, 162, 163, 160, 163, 164, 160, 164, 165, 160, 165, 166, 160, 166, 167]"
  by (simp add: ahmed_indices_def wing_indices_def Let_def upt_conv_Cons)

lemma ahmed_mesh_ok:
  "mesh_ok (createAhmedBodyGeometry len width height slantAngle) 168 292"
proof -
  have l: "length (wing_indices 8 20) mod 3 = 0" by (simp add: length_wing_indices)
  have v: "list_all (valid_triangle 168) (index_triples (wing_indices 8 20))"
    using wing_triples_valid [of 20 8] by simp
  have p: "length (ahmed_vertices len width height slantAngle) = 168"
    by (simp add: ahmed_vertices_def Let_def length_concat_const [where c = 8])
  show ?thesis
    using v by (simp add: mesh_ok_def createAhmedBodyGeometry_def p ahmed_indices_wing
        index_triples_append [OF l] length_wing_indices length_index_triples valid_triangle_def)
qed

lemma nth_concat_grid:
  "i < m \<Longrightarrow> j < n \<Longrightarrow> concat (map (\<lambda>i. map (f i) [0..<n]) [0..<m]) ! (i * n + j) = f i j"
proof (induction m)
  case 0
  then show ?case by simp
next
  case (Suc m)
  have len: "length (concat (map (\<lambda>i. map (f i) [0..<n]) [0..<m])) = n * m"
    by (simp add: length_concat_const [where c = n])
  show ?case
  proof (cases "i < m")
    case True
    then have "(i + 1) * n \<le> m * n" by (intro mult_le_mono1) simp
    with Suc.prems(2) have "i * n + j < n * m" by (simp add: mult.commute)
    with Suc.IH [OF True Suc.prems(2)] show ?thesis
      by (simp add: nth_append len)
  next
    case False
    with Suc.prems(1) have "i = m" by simp
    with Suc.prems(2) show ?thesis
      by (simp add: nth_append len mult.commute)
  qed
qed

subsection \<open>The areas of the triangles\<close>

lemma length_v_pos_iff: "0 < length_v v \<longleftrightarrow> vx v \<noteq> 0 \<or> vy v \<noteq> 0 \<or> vz v \<noteq> 0"
proof -
  have "0 \<le> vx v * vx v + vy v * vy v" by simp
  then have "vx v * vx v + vy v * vy v + vz v * vz v = 0 \<longleftrightarrow>
      vx v * vx v + vy v * vy v = 0 \<and> vz v * vz v = 0"
    by (intro add_nonneg_eq_0_iff) simp_all
  then have z: "lengthSq v = 0 \<longleftrightarrow> vx v = 0 \<and> vy v = 0 \<and> vz v = 0"
    by (simp add: lengthSq_def sum_squares_eq_zero_iff)
  have "0 \<le> lengthSq v" by (simp add: lengthSq_def)
  with z have "0 < lengthSq v \<longleftrightarrow> vx v \<noteq> 0 \<or> vy v \<noteq> 0 \<or> vz v \<noteq> 0"
    by (auto simp: less_le)
  then show ?thesis by (simp add: length_v_def)
qed

lemma triangle_area_in_range:
  assumes "a < length ps" "b < length ps" "c < length ps"
  shows "triangle_area ps (a, b, c) =
     length_v (crossVectors (subVectors (ps ! b) (ps ! a)) (subVectors (ps ! c) (ps ! a))) / 2"
  using assms by (simp add: triangle_area_def make_panel_def vertex_at_def Let_def)

text \<open>A quadrilateral of an extruded section: corners \<open>(p, z)\<close>, \<open>(p, z')\<close>, \<open>(p', z)\<close>, \<open>(p', z')\<close>.\<close>

lemma extruded_first:
  assumes "z \<noteq> z'" "x \<noteq> x' \<or> y \<noteq> y'"
  shows "0 < length_v (crossVectors (subVectors (Vector3 x y z') (Vector3 x y z))
                                     (subVectors (Vector3 x' y' z) (Vector3 x y z)))"
  using assms by (auto simp: length_v_pos_iff crossVectors_def subVectors_def)

lemma extruded_second:
  assumes "z \<noteq> z'" "x \<noteq> x' \<or> y \<noteq> y'"
  shows "0 < length_v (crossVectors (subVectors (Vector3 x' y' z') (Vector3 x y z'))
                                     (subVectors (Vector3 x' y' z) (Vector3 x y z')))"
  using assms by (auto simp: length_v_pos_iff crossVectors_def subVectors_def)

text \<open>The triangles of an extruded grid with \<open>n\<close> points per section and \<open>m\<close> segments.\<close>

lemma extruded_area_pos:
  assumes pos: "\<And>i j. i < m + 1 \<Longrightarrow> j < n \<Longrightarrow> ps ! (i * n + j) = Vector3 (X j) (Y j) (Z i)"
    and len: "length ps = (m + 1) * n"
    and Z: "\<And>i. i < m \<Longrightarrow> Z i \<noteq> Z (i + 1)"
    and P: "\<And>j. j + 1 < n \<Longrightarrow> X j \<noteq> X (j + 1) \<or> Y j \<noteq> Y (j + 1)"
    and t: "t \<in> set (index_triples (wing_indices n m))"
  shows "0 < triangle_area ps t"
proof -
  from t obtain i j where ij: "i < m" "j < n - 1"
    and t': "t = (i * n + j, i * n + j + n, i * n + j + 1) \<or>
             t = (i * n + j + n, i * n + j + n + 1, i * n + j + 1)"
    by (auto simp: index_triples_wing)
  from ij have j1: "j + 1 < n" and jn: "j < n" by simp_all
  have r: "i * n + j + n + 1 < length ps" using quad_in_range [OF ij] len by simp
  have a: "ps ! (i * n + j) = Vector3 (X j) (Y j) (Z i)" using pos [of i j] ij jn by simp
  have eb: "i * n + j + n = (i + 1) * n + j" by simp
  have b: "ps ! (i * n + j + n) = Vector3 (X j) (Y j) (Z (i + 1))"
    unfolding eb by (rule pos) (use ij jn in simp_all)
  have ec: "i * n + j + 1 = i * n + (j + 1)" by simp
  have c: "ps ! (i * n + j + 1) = Vector3 (X (j + 1)) (Y (j + 1)) (Z i)"
    unfolding ec by (rule pos) (use ij j1 in simp_all)
  have ed: "i * n + j + n + 1 = (i + 1) * n + (j + 1)" by simp
  have d: "ps ! (i * n + j + n + 1) = Vector3 (X (j + 1)) (Y (j + 1)) (Z (i + 1))"
    unfolding ed by (rule pos) (use ij j1 in simp_all)
  from t' show ?thesis
  proof
    assume "t = (i * n + j, i * n + j + n, i * n + j + 1)"
    moreover have "triangle_area ps (i * n + j, i * n + j + n, i * n + j + 1) =
      length_v (crossVectors (subVectors (ps ! (i * n + j + n)) (ps ! (i * n + j)))
                             (subVectors (ps ! (i * n + j + 1)) (ps ! (i * n + j)))) / 2"
      using r by (intro triangle_area_in_range) simp_all
    ultimately show ?thesis
      using extruded_first [OF Z [OF ij(1)] P [OF j1]] by (simp only: a b c)
  next
    assume "t = (i * n + j + n, i * n + j + n + 1, i * n + j + 1)"
    moreover have "triangle_area ps (i * n + j + n, i * n + j + n + 1, i * n + j + 1) =
      length_v (crossVectors (subVectors (ps ! (i * n + j + n + 1)) (ps ! (i * n + j + n)))
                             (subVectors (ps ! (i * n + j + 1)) (ps ! (i * n + j + n)))) / 2"
      using r by (intro triangle_area_in_range) simp_all
    ultimately show ?thesis
      using extruded_second [OF Z [OF ij(1)] P [OF j1]] by (simp only: b c d)
  qed
qed

lemma wing_position_nth:
  "i < segments + 1 \<Longrightarrow> j < length airfoilX \<Longrightarrow>
     position (createWingGeometry airfoilX airfoilY wingSpan chord segments) ! (i * length airfoilX + j)
       = Vector3 (airfoilX ! j * chord) (airfoilY ! j * chord)
           ((real i / real segments - 1 / 2) * wingSpan)"
  unfolding createWingGeometry_def wing_vertices_def Let_def
  using nth_concat_grid [of i "segments + 1" j "length airfoilX"
      "\<lambda>i j. Vector3 (airfoilX ! j * chord) (airfoilY ! j * chord) ((real i / real segments - 1 / 2) * wingSpan)"]
  by simp

lemma wing_area_pos:
  assumes "wingSpan \<noteq> 0" "chord \<noteq> 0" "0 < segments"
    and pts: "\<forall>j. j + 1 < length airfoilX \<longrightarrow>
            airfoilX ! j \<noteq> airfoilX ! (j + 1) \<or> airfoilY ! j \<noteq> airfoilY ! (j + 1)"
    and t: "t \<in> set (mesh_triangles (createWingGeometry airfoilX airfoilY wingSpan chord segments))"
  shows "0 < triangle_area (position (createWingGeometry airfoilX airfoilY wingSpan chord segments)) t"
proof (rule extruded_area_pos [where n = "length airfoilX" and m = segments
      and X = "\<lambda>j. airfoilX ! j * chord" and Y = "\<lambda>j. airfoilY ! j * chord"
      and Z = "\<lambda>i. (real i / real segments - 1 / 2) * wingSpan"])
  show "position (createWingGeometry airfoilX airfoilY wingSpan chord segments) ! (i * length airfoilX + j) =
      Vector3 (airfoilX ! j * chord) (airfoilY ! j * chord) ((real i / real segments - 1 / 2) * wingSpan)"
    if "i < segments + 1" "j < length airfoilX" for i j
    using that by (rule wing_position_nth)
  show "length (position (createWingGeometry airfoilX airfoilY wingSpan chord segments)) =
      (segments + 1) * length airfoilX"
    using wing_mesh_ok [of airfoilX airfoilY wingSpan chord segments] by (simp add: mesh_ok_def)
  show "(real i / real segments - 1 / 2) * wingSpan \<noteq> (real (i + 1) / real segments - 1 / 2) * wingSpan"
    if "i < segments" for i
    using assms(1,3) by (simp add: field_simps)
  show "airfoilX ! j * chord \<noteq> airfoilX ! (j + 1) * chord \<or> airfoilY ! j * chord \<noteq> airfoilY ! (j + 1) * chord"
    if "j + 1 < length airfoilX" for j
    using that pts assms(2) by simp
  show "t \<in> set (index_triples (wing_indices (length airfoilX) segments))"
    using t by (simp add: mesh_triangles_def createWingGeometry_def)
qed


lemma tan_slant:
  assumes "0 \<le> slantAngle" "slantAngle \<le> 40"
  shows "0 \<le> tan (slantAngle * pi / 180) \<and> tan (slantAngle * pi / 180) < 1"
proof -
  have lo: "0 \<le> slantAngle * pi / 180" using assms(1) by simp
  have "slantAngle * pi \<le> 40 * pi" using assms(2) by simp
  then have hi: "slantAngle * pi / 180 < pi / 4" using pi_gt_zero by (simp add: field_simps)
  have "- (pi / 2) < slantAngle * pi / 180" using lo pi_gt_zero by linarith
  moreover have "pi / 4 < pi / 2" using pi_gt_zero by simp
  ultimately have "tan (slantAngle * pi / 180) < tan (pi / 4)"
    using hi by (intro tan_monotone)
  moreover have "0 \<le> tan (slantAngle * pi / 180)"
  proof (cases "slantAngle = 0")
    case True
    then show ?thesis by simp
  next
    case False
    with assms(1) have "0 < slantAngle" by simp
    then have "0 < slantAngle * pi / 180" by simp
    moreover have "slantAngle * pi / 180 < pi / 2" using hi pi_gt_zero by linarith
    ultimately show ?thesis using tan_gt_zero by (simp add: less_imp_le)
  qed
  ultimately show ?thesis by (simp add: tan_45)
qed

lemma ahmed_position_nth:
  assumes "i < 21" "j < 8"
  shows "position (createAhmedBodyGeometry len width height slantAngle) ! (i * 8 + j)
       = Vector3 (fst (ahmed_points len height slantAngle ! j))
                 (snd (ahmed_points len height slantAngle ! j))
                 ((real i / 20 - 1 / 2) * width)"
proof -
  let ?pts = "ahmed_points len height slantAngle"
  have m: "map (\<lambda>(x, y). Vector3 x y z) ?pts = map (\<lambda>j. Vector3 (fst (?pts ! j)) (snd (?pts ! j)) z) [0..<8]" for z
    by (simp add: list_eq_iff_nth_eq case_prod_beta)
  show ?thesis
    unfolding createAhmedBodyGeometry_def ahmed_vertices_def Let_def m
    using nth_concat_grid [of i 21 j 8
        "\<lambda>i j. Vector3 (fst (?pts ! j)) (snd (?pts ! j)) ((real i / 20 - 1 / 2) * width)"] assms
    by simp
qed

lemma index_triples_ahmed:
  "index_triples (ahmed_indices 8 20) =
     index_triples (wing_indices 8 20) @ map (\<lambda>i. (0, i + 1, i)) [1..<7]
       @ map (\<lambda>i. (160, 160 + i, 160 + i + 1)) [1..<7]"
proof -
  have l1: "length (wing_indices 8 20) mod 3 = 0" by (simp add: length_wing_indices)
  have l2: "length (concat (map (\<lambda>i. [0, i + 1, i]) [1..<7::nat])) mod 3 = 0"
    by (simp add: length_concat_const [where c = 3])
  have c1: "index_triples (concat (map (\<lambda>i. [0, i + 1, i]) [1..<7])) = map (\<lambda>i. (0, i + 1, i)) [1..<7]"
    by (subst index_triples_concat) (simp_all add: concat_map_singleton)
  have c2: "index_triples (concat (map (\<lambda>i. [160, 160 + i, 160 + i + 1]) [1..<7]))
      = map (\<lambda>i. (160, 160 + i, 160 + i + 1)) [1..<7]"
    by (subst index_triples_concat) (simp_all add: concat_map_singleton)
  have "ahmed_indices 8 20 = wing_indices 8 20 @ (concat (map (\<lambda>i. [0, i + 1, i]) [1..<7])
      @ concat (map (\<lambda>i. [160, 160 + i, 160 + i + 1]) [1..<7]))"
    by (simp add: ahmed_indices_def wing_indices_def Let_def)
  then show ?thesis
    by (simp only: index_triples_append [OF l1] index_triples_append [OF l2] c1 c2)
qed

lemma planar_area:
  assumes "(x1 - x0) * (y2 - y0) - (y1 - y0) * (x2 - x0) \<noteq> 0"
  shows "0 < length_v (crossVectors (subVectors (Vector3 x1 y1 z) (Vector3 x0 y0 z))
                                     (subVectors (Vector3 x2 y2 z) (Vector3 x0 y0 z)))"
  using assms by (simp add: length_v_pos_iff crossVectors_def subVectors_def)


lemma ahmed_points_nth:
  "ahmed_points len height slantAngle ! 0 = (0, 0)"
  "ahmed_points len height slantAngle ! Suc 0 = (1 / 10, 0)"
  "ahmed_points len height slantAngle ! Suc (Suc 0) = (2 / 10, height * (3 / 10))"
  "ahmed_points len height slantAngle ! 2 = (2 / 10, height * (3 / 10))"
  "ahmed_points len height slantAngle ! 3 = (3 / 10, height * (7 / 10))"
  "ahmed_points len height slantAngle ! 4 = (338 / 1000, height)"
  "ahmed_points len height slantAngle ! 5 = (len - 222 / 1000, height)"
  "ahmed_points len height slantAngle ! 6 = (len, height - 222 / 1000 * tan (slantAngle * pi / 180))"
  "ahmed_points len height slantAngle ! 7 = (len, 0)"
  by (simp_all add: ahmed_points_def Let_def numeral_2_eq_2)

lemma nat_below_7: "j < 7 \<Longrightarrow> j = 0 \<or> j = 1 \<or> j = 2 \<or> j = 3 \<or> j = 4 \<or> j = 5 \<or> j = (6::nat)"
  by arith

lemma ahmed_area_pos:
  assumes a: "0 \<le> slantAngle" "slantAngle \<le> 40"
    and t: "t \<in> set (mesh_triangles
              (createAhmedBodyGeometry (1044 / 1000) (389 / 1000) (288 / 1000) slantAngle))"
  shows "0 < triangle_area
           (position (createAhmedBodyGeometry (1044 / 1000) (389 / 1000) (288 / 1000) slantAngle)) t"
proof -
  let ?geo = "createAhmedBodyGeometry (1044 / 1000) (389 / 1000) (288 / 1000) slantAngle"
  let ?pts = "ahmed_points (1044 / 1000) (288 / 1000) slantAngle"
  let ?X = "\<lambda>j. fst (?pts ! j)"
  let ?Y = "\<lambda>j. snd (?pts ! j)"
  let ?Z = "\<lambda>i. (real i / 20 - 1 / 2) * (389 / 1000)"
  define tn where "tn = tan (slantAngle * pi / 180)"
  from tan_slant [OF a] have tn: "0 \<le> tn" "tn < 1" by (simp_all add: tn_def)
  have pos: "position ?geo ! (i * 8 + j) = Vector3 (?X j) (?Y j) (?Z i)" if "i < 21" "j < 8" for i j
    using that by (rule ahmed_position_nth)
  have len: "length (position ?geo) = 168"
    using ahmed_mesh_ok [of "1044 / 1000" "389 / 1000" "288 / 1000" slantAngle] by (simp add: mesh_ok_def)
  have consecutive: "?X j \<noteq> ?X (j + 1) \<or> ?Y j \<noteq> ?Y (j + 1)" if "j + 1 < 8" for j
  proof -
    from that have "j < 7" by simp
    then have "j = 0 \<or> j = 1 \<or> j = 2 \<or> j = 3 \<or> j = 4 \<or> j = 5 \<or> j = 6" by (rule nat_below_7)
    then show ?thesis using tn by (auto simp: ahmed_points_nth tn_def [symmetric])
  qed
  have det: "?X (i + 1) * ?Y i - ?Y (i + 1) * ?X i \<noteq> 0" if "1 \<le> i" "i < 7" for i
  proof -
    from that have "i = 1 \<or> i = 2 \<or> i = 3 \<or> i = 4 \<or> i = 5 \<or> i = 6" by arith
    then show ?thesis
    proof (elim disjE)
      assume i: "i = 5"
      have tn': "tan (pi * slantAngle / 180) = tn" by (simp add: tn_def mult.commute)
      have "?X (i + 1) * ?Y i - ?Y (i + 1) * ?X i = 63936 / 1000000 + 182484 / 1000000 * tn"
        by (simp add: i ahmed_points_nth tn_def [symmetric] tn' algebra_simps)
      moreover have "0 < 63936 / 1000000 + 182484 / 1000000 * tn"
        using tn(1) by (intro add_pos_nonneg) simp_all
      ultimately show ?thesis by simp
    next
      assume i: "i = 6"
      have "?X (i + 1) * ?Y i - ?Y (i + 1) * ?X i = (1044 / 1000) * (288 / 1000 - 222 / 1000 * tn)"
        by (simp add: i ahmed_points_nth tn_def [symmetric])
      moreover have "0 < 288 / 1000 - 222 / 1000 * tn" using tn(2) by simp
      ultimately show ?thesis by simp
    qed (simp_all add: ahmed_points_nth)
  qed
  from t have "t \<in> set (index_triples (ahmed_indices 8 20))"
    by (simp add: mesh_triangles_def createAhmedBodyGeometry_def)
  then consider "t \<in> set (index_triples (wing_indices 8 20))"
    | i where "1 \<le> i" "i < 7" "t = (0, i + 1, i)"
    | i where "1 \<le> i" "i < 7" "t = (160, 160 + i, 160 + i + 1)"
    by (auto simp: index_triples_ahmed)
  then show ?thesis
  proof cases
    case 1
    show ?thesis
    proof (rule extruded_area_pos [where n = 8 and m = 20 and X = ?X and Y = ?Y and Z = ?Z])
      show "position ?geo ! (i * 8 + j) = Vector3 (?X j) (?Y j) (?Z i)" if "i < 20 + 1" "j < 8" for i j
        using that by (intro pos) simp_all
      show "length (position ?geo) = (20 + 1) * 8" using len by simp
      show "?Z i \<noteq> ?Z (i + 1)" if "i < 20" for i by simp
      show "?X j \<noteq> ?X (j + 1) \<or> ?Y j \<noteq> ?Y (j + 1)" if "j + 1 < 8" for j
        using that by (rule consecutive)
      show "t \<in> set (index_triples (wing_indices 8 20))" by (rule 1)
    qed
  next
    case (2 i)
    have p0: "position ?geo ! 0 = Vector3 0 0 (?Z 0)"
      using pos [of 0 0] by (simp add: ahmed_points_nth)
    have p1: "position ?geo ! (i + 1) = Vector3 (?X (i + 1)) (?Y (i + 1)) (?Z 0)"
      using pos [of 0 "i + 1"] 2 by simp
    have p2: "position ?geo ! i = Vector3 (?X i) (?Y i) (?Z 0)"
      using pos [of 0 i] 2 by simp
    have "triangle_area (position ?geo) (0, i + 1, i) =
        length_v (crossVectors (subVectors (position ?geo ! (i + 1)) (position ?geo ! 0))
                               (subVectors (position ?geo ! i) (position ?geo ! 0))) / 2"
      using 2 len by (intro triangle_area_in_range) simp_all
    moreover have "0 < length_v (crossVectors
        (subVectors (Vector3 (?X (i + 1)) (?Y (i + 1)) (?Z 0)) (Vector3 0 0 (?Z 0)))
        (subVectors (Vector3 (?X i) (?Y i) (?Z 0)) (Vector3 0 0 (?Z 0))))"
      using det [OF 2(1,2)] by (intro planar_area) simp
    ultimately show ?thesis by (simp only: 2 p0 p1 p2)
  next
    case (3 i)
    have p0: "position ?geo ! 160 = Vector3 0 0 (?Z 20)"
      using pos [of 20 0] by (simp add: ahmed_points_nth)
    have p1: "position ?geo ! (160 + i) = Vector3 (?X i) (?Y i) (?Z 20)"
      using pos [of 20 i] 3 by simp
    have p2: "position ?geo ! (160 + i + 1) = Vector3 (?X (i + 1)) (?Y (i + 1)) (?Z 20)"
      using pos [of 20 "i + 1"] 3 by (simp add: add.assoc)
    have "triangle_area (position ?geo) (160, 160 + i, 160 + i + 1) =
        length_v (crossVectors (subVectors (position ?geo ! (160 + i)) (position ?geo ! 160))
                               (subVectors (position ?geo ! (160 + i + 1)) (position ?geo ! 160))) / 2"
      using 3 len by (intro triangle_area_in_range) simp_all
    moreover have "0 < length_v (crossVectors
        (subVectors (Vector3 (?X i) (?Y i) (?Z 20)) (Vector3 0 0 (?Z 20)))
        (subVectors (Vector3 (?X (i + 1)) (?Y (i + 1)) (?Z 20)) (Vector3 0 0 (?Z 20))))"
      using det [OF 3(1,2)] by (intro planar_area) (simp add: algebra_simps)
    ultimately show ?thesis by (simp only: 3 p0 p1 p2)
  qed
qed

lemma ogive_position_nth:
  "i < rings + 1 \<Longrightarrow> j < segments + 1 \<Longrightarrow>
     position (createOgiveGeometry len radius segments rings) ! (i * (segments + 1) + j)
       = ogive_vertex len radius segments rings i j"
  unfolding createOgiveGeometry_def ogive_vertices_def
  using nth_concat_grid [of i "rings + 1" j "segments + 1" "ogive_vertex len radius segments rings"]
  by simp

lemma ogive_tip:
  assumes "0 < radius" "radius \<le> len"
  shows "ogive_vertex len radius segments rings 0 j = Vector3 0 0 0"
proof -
  define q where "q = (len * len - radius * radius) / (2 * radius)"
  define rho where "rho = (radius * radius + len * len) / (2 * radius)"
  have "radius * radius \<le> len * len" using assms by (intro mult_mono) simp_all
  then have q: "0 \<le> q" using assms(1) by (simp add: q_def)
  have "rho * rho - len * len = q\<^sup>2"
    using assms(1) by (simp add: rho_def q_def power2_eq_square field_simps)
  then have "sqrt (rho * rho - len * len) = q" using q by simp
  moreover have "rho - radius = q" using assms(1) by (simp add: rho_def q_def field_simps)
  ultimately show ?thesis
    by (simp add: ogive_vertex_def Let_def rho_def [symmetric])
qed

lemma length_v_zero [simp]: "length_v (Vector3 0 0 0) = 0"
  by (simp add: length_v_def lengthSq_def)


lemma ogive_profile_pos:
  assumes "0 < radius" "0 < len" "0 < x" "x \<le> len"
    and rho: "rho = (radius * radius + len * len) / (2 * radius)"
  shows "0 < sqrt (rho * rho - (len - x) * (len - x)) - (rho - radius)"
proof -
  define B where "B = rho - radius"
  have "rho * rho - B * B = len * len"
    using assms(1) by (simp add: B_def rho field_simps)
  moreover have "(len - x) * (len - x) < len * len"
    using assms(2,3,4) by (intro mult_strict_mono) simp_all
  ultimately have "B * B < rho * rho - (len - x) * (len - x)" by linarith
  then have "sqrt (B * B) < sqrt (rho * rho - (len - x) * (len - x))"
    by (rule real_sqrt_less_mono)
  moreover have "B \<le> sqrt (B * B)" by simp
  ultimately show ?thesis by (simp add: B_def)
qed

lemma ring_angle_differs:
  assumes "2 \<le> segments"
  shows "cos (real j / real segments * pi * 2) \<noteq> cos (real (j + 1) / real segments * pi * 2) \<or>
         sin (real j / real segments * pi * 2) \<noteq> sin (real (j + 1) / real segments * pi * 2)"
proof (rule ccontr)
  let ?a = "real j / real segments * pi * 2"
  let ?b = "real (j + 1) / real segments * pi * 2"
  assume "\<not> (cos ?a \<noteq> cos ?b \<or> sin ?a \<noteq> sin ?b)"
  then have eq: "cos ?a = cos ?b" "sin ?a = sin ?b" by simp_all
  have s: "0 < real segments" "2 \<le> real segments" using assms by simp_all
  have d: "?b - ?a = 2 * pi / real segments" using s by (simp add: field_simps)
  have "cos (?b - ?a) = cos ?b * cos ?a + sin ?b * sin ?a" by (rule cos_diff)
  also have "\<dots> = (cos ?b)\<^sup>2 + (sin ?b)\<^sup>2" by (simp only: eq power2_eq_square)
  also have "\<dots> = 1" by simp
  finally have one: "cos (2 * pi / real segments) = 1" by (simp only: d)
  have "0 < 2 * pi / real segments" using s pi_gt_zero by simp
  moreover have "2 * pi / real segments \<le> pi" using s pi_gt_zero by (simp add: field_simps)
  ultimately have "cos (2 * pi / real segments) < cos 0"
    by (intro cos_monotone_0_pi) simp_all
  with one show False by simp
qed

lemma revolved_first:
  assumes "x \<noteq> x'" "y \<noteq> 0" "c \<noteq> c' \<or> s \<noteq> s'"
  shows "0 < length_v (crossVectors
           (subVectors (Vector3 x' (y' * c) (y' * s)) (Vector3 x (y * c) (y * s)))
           (subVectors (Vector3 x (y * c') (y * s')) (Vector3 x (y * c) (y * s))))"
proof -
  have "y * c' - y * c = y * (c' - c)" "y * s' - y * s = y * (s' - s)" by (simp_all add: algebra_simps)
  then show ?thesis
    using assms by (auto simp: length_v_pos_iff crossVectors_def subVectors_def)
qed

lemma revolved_second:
  assumes "x \<noteq> x'" "y' \<noteq> 0" "c \<noteq> c' \<or> s \<noteq> s'"
  shows "0 < length_v (crossVectors
           (subVectors (Vector3 x' (y' * c') (y' * s')) (Vector3 x' (y' * c) (y' * s)))
           (subVectors (Vector3 x (y * c') (y * s')) (Vector3 x' (y' * c) (y' * s))))"
proof -
  have "y' * c' - y' * c = y' * (c' - c)" "y' * s' - y' * s = y' * (s' - s)" by (simp_all add: algebra_simps)
  then show ?thesis
    using assms by (auto simp: length_v_pos_iff crossVectors_def subVectors_def)
qed

lemma ogive_area_pos:
  assumes R: "0 < radius" and L: "0 < len" and S: "2 \<le> segments" and rings: "0 < rings"
    and t: "t \<in> set (mesh_triangles (createOgiveGeometry len radius segments rings))"
    and nt: "\<not> tip_triangle segments t"
  shows "0 < triangle_area (position (createOgiveGeometry len radius segments rings)) t"
proof -
  let ?geo = "createOgiveGeometry len radius segments rings"
  let ?n = "segments + 1"
  define rho where "rho = (radius * radius + len * len) / (2 * radius)"
  define X where "X = (\<lambda>i. (real i / real rings) * len)"
  define Y where "Y = (\<lambda>i. sqrt (rho * rho - (len - X i) * (len - X i)) - (rho - radius))"
  define C where "C = (\<lambda>j. cos (real j / real segments * pi * 2))"
  define D where "D = (\<lambda>j. sin (real j / real segments * pi * 2))"
  have pos: "position ?geo ! (i * ?n + j) = Vector3 (X i) (Y i * C j) (Y i * D j)"
    if "i < rings + 1" "j < ?n" for i j
    using ogive_position_nth [OF that, of len radius]
    by (simp add: ogive_vertex_def Let_def rho_def X_def Y_def C_def D_def)
  have len: "length (position ?geo) = (rings + 1) * ?n"
    using ogive_mesh_ok [of len radius segments rings] by (simp add: mesh_ok_def)
  have Ypos: "0 < Y i" if "0 < i" "i \<le> rings" for i
  proof -
    have "0 < X i" using that L rings by (simp add: X_def)
    moreover have "real i / real rings \<le> 1" using that rings by simp
    then have "real i / real rings * len \<le> 1 * len" using L by (intro mult_right_mono) simp_all
    then have "X i \<le> len" by (simp only: X_def mult_1)
    ultimately show ?thesis
      unfolding Y_def using R L rho_def by (intro ogive_profile_pos) simp_all
  qed
  have Xne: "X i \<noteq> X (i + 1)" for i
    using L rings by (simp add: X_def field_simps)
  have ang: "C j \<noteq> C (j + 1) \<or> D j \<noteq> D (j + 1)" for j
    unfolding C_def D_def by (rule ring_angle_differs [OF S])
  from t have "t \<in> set (index_triples (wing_indices ?n rings))"
    by (simp add: mesh_triangles_def createOgiveGeometry_def ogive_indices_wing)
  then obtain i j where ij: "i < rings" "j < ?n - 1"
    and t': "t = (i * ?n + j, i * ?n + j + ?n, i * ?n + j + 1) \<or>
             t = (i * ?n + j + ?n, i * ?n + j + ?n + 1, i * ?n + j + 1)"
    by (auto simp: index_triples_wing)
  from ij have j1: "j + 1 < ?n" and jn: "j < ?n" by simp_all
  have r: "i * ?n + j + ?n + 1 < length (position ?geo)" using quad_in_range [OF ij] len by simp
  have a: "position ?geo ! (i * ?n + j) = Vector3 (X i) (Y i * C j) (Y i * D j)"
    by (rule pos) (use ij jn in simp_all)
  have eb: "i * ?n + j + ?n = (i + 1) * ?n + j" by simp
  have b: "position ?geo ! (i * ?n + j + ?n) = Vector3 (X (i + 1)) (Y (i + 1) * C j) (Y (i + 1) * D j)"
    unfolding eb by (rule pos) (use ij jn in simp_all)
  have ec: "i * ?n + j + 1 = i * ?n + (j + 1)" by simp
  have c: "position ?geo ! (i * ?n + j + 1) = Vector3 (X i) (Y i * C (j + 1)) (Y i * D (j + 1))"
    unfolding ec by (rule pos) (use ij j1 in simp_all)
  have ed: "i * ?n + j + ?n + 1 = (i + 1) * ?n + (j + 1)" by simp
  have d: "position ?geo ! (i * ?n + j + ?n + 1) =
      Vector3 (X (i + 1)) (Y (i + 1) * C (j + 1)) (Y (i + 1) * D (j + 1))"
    unfolding ed by (rule pos) (use ij j1 in simp_all)
  from t' show ?thesis
  proof
    assume t1: "t = (i * ?n + j, i * ?n + j + ?n, i * ?n + j + 1)"
    have "0 < i"
    proof (rule ccontr)
      assume "\<not> 0 < i"
      then have "i = 0" by simp
      with t1 ij have "tip_triangle segments t" by (simp add: tip_triangle_def)
      with nt show False by simp
    qed
    then have y: "Y i \<noteq> 0" using Ypos [of i] ij by simp
    have "triangle_area (position ?geo) (i * ?n + j, i * ?n + j + ?n, i * ?n + j + 1) =
      length_v (crossVectors
        (subVectors (position ?geo ! (i * ?n + j + ?n)) (position ?geo ! (i * ?n + j)))
        (subVectors (position ?geo ! (i * ?n + j + 1)) (position ?geo ! (i * ?n + j)))) / 2"
      using r by (intro triangle_area_in_range) simp_all
    then show ?thesis
      using revolved_first [OF Xne y ang, of i "Y (i + 1)" j] by (simp only: t1 a b c)
  next
    assume t2: "t = (i * ?n + j + ?n, i * ?n + j + ?n + 1, i * ?n + j + 1)"
    have y: "Y (i + 1) \<noteq> 0" using Ypos [of "i + 1"] ij by simp
    have "triangle_area (position ?geo) (i * ?n + j + ?n, i * ?n + j + ?n + 1, i * ?n + j + 1) =
      length_v (crossVectors
        (subVectors (position ?geo ! (i * ?n + j + ?n + 1)) (position ?geo ! (i * ?n + j + ?n)))
        (subVectors (position ?geo ! (i * ?n + j + 1)) (position ?geo ! (i * ?n + j + ?n)))) / 2"
      using r by (intro triangle_area_in_range) simp_all
    then show ?thesis
      using revolved_second [OF Xne y ang, of i j "Y i"] by (simp only: t2 b c d)
  qed
qed


lemma ogive_tip_area:
  assumes "0 < radius" "radius \<le> len" "0 < segments"
  shows "triangle_area (position (createOgiveGeometry len radius segments rings)) (0, segments + 1, 1) = 0"
proof -
  let ?p = "position (createOgiveGeometry len radius segments rings)"
  have "?p ! 0 = Vector3 0 0 0"
    using ogive_position_nth [of 0 rings 0 segments len radius] ogive_tip [OF assms(1,2)] by simp
  then have v0: "vertex_at ?p (Some 0) = Vector3 0 0 0" by (simp add: vertex_at_def)
  have "?p ! 1 = Vector3 0 0 0"
    using assms(3) ogive_position_nth [of 0 rings 1 segments len radius] ogive_tip [OF assms(1,2)]
    by simp
  then have v2: "vertex_at ?p (Some (Suc 0)) = Vector3 0 0 0" by (simp add: vertex_at_def)
  show ?thesis
    by (simp add: triangle_area_def make_panel_def Let_def v0 v2 subVectors_def crossVectors_def)
qed

lemma ogive_first_quad:
  assumes "0 < segments" "0 < rings"
  shows "(0, segments + 1, 1) \<in> set (mesh_triangles (createOgiveGeometry len radius segments rings))"
    and "(segments + 1, segments + 2, 1) \<in> set (mesh_triangles (createOgiveGeometry len radius segments rings))"
proof -
  have z: "0 \<in> {0..<rings}" "0 \<in> {0..<segments}" using assms by simp_all
  show "(0, segments + 1, 1) \<in> set (mesh_triangles (createOgiveGeometry len radius segments rings))"
    unfolding mesh_triangles_def createOgiveGeometry_def
    using z by (auto simp: ogive_indices_wing index_triples_wing intro!: bexI [of _ 0])
  show "(segments + 1, segments + 2, 1) \<in> set (mesh_triangles (createOgiveGeometry len radius segments rings))"
    unfolding mesh_triangles_def createOgiveGeometry_def
    using z by (auto simp: ogive_indices_wing index_triples_wing intro!: bexI [of _ 0])
qed

lemma wing_first_triangle:
  assumes "0 < segments" "1 < length airfoilX"
  shows "(0, length airfoilX, 1) \<in> set (mesh_triangles (createWingGeometry airfoilX airfoilY wingSpan chord segments))"
proof -
  have z: "0 \<in> {0..<segments}" "0 \<in> {0..<length airfoilX - 1}" using assms by simp_all
  show ?thesis
    unfolding mesh_triangles_def createWingGeometry_def
    using z by (auto simp: index_triples_wing intro!: bexI [of _ 0])
qed

lemma ahmed_first_cap:
  "(0, 2, 1) \<in> set (mesh_triangles (createAhmedBodyGeometry len width height slantAngle))"
  by (simp add: mesh_triangles_def createAhmedBodyGeometry_def index_triples_ahmed upt_conv_Cons)

text \<open>
  Claim C6, as amended. Every generator produces a mesh whose index is a whole number
  of triangles, every triangle three different vertex numbers below the vertex count,
  and the number of triangles is the closed form of the family: for the wing
  \<open>segments * (pointsPerSection - 1) * 2\<close> on \<open>(segments + 1) * pointsPerSection\<close>
  vertices, for the ogive \<open>rings * segments * 2\<close> on \<open>(rings + 1) * (segments + 1)\<close>
  vertices, for the Ahmed body \<open>20 * 7 * 2\<close> side triangles and two caps of 6 on
  \<open>21 * 8\<close> vertices. No triangle has zero area: of the wing, for a section whose
  consecutive points differ, a span and a chord that are not 0 and at least one
  segment; of the Ahmed body of the optimisation page (length 1.044, width 0.389,
  height 0.288), for every slant angle from 0 to 40 degrees; of the ogive, for a
  positive radius and length, at least two segments and one ring, with the exception
  of the tip triangles, those with two corners on the first ring, of which nothing is
  said.
\<close>

theorem mesh_indices_valid:
  "mesh_ok (createWingGeometry airfoilX airfoilY wingSpan chord segments)
     ((segments + 1) * length airfoilX) (segments * (length airfoilX - 1) * 2) \<and>
   mesh_ok (createOgiveGeometry len radius ogiveSegments rings)
     ((rings + 1) * (ogiveSegments + 1)) (rings * ogiveSegments * 2) \<and>
   mesh_ok (createAhmedBodyGeometry bodyLength width height slantAngle) (21 * 8) (20 * 7 * 2 + 6 + 6) \<and>
   (wingSpan \<noteq> 0 \<and> chord \<noteq> 0 \<and> 0 < segments \<and>
    (\<forall>j. j + 1 < length airfoilX \<longrightarrow>
         airfoilX ! j \<noteq> airfoilX ! (j + 1) \<or> airfoilY ! j \<noteq> airfoilY ! (j + 1)) \<longrightarrow>
    (\<forall>t \<in> set (mesh_triangles (createWingGeometry airfoilX airfoilY wingSpan chord segments)).
       0 < triangle_area (position (createWingGeometry airfoilX airfoilY wingSpan chord segments)) t)) \<and>
   (0 < radius \<and> 0 < len \<and> 2 \<le> ogiveSegments \<and> 0 < rings \<longrightarrow>
    (\<forall>t \<in> set (mesh_triangles (createOgiveGeometry len radius ogiveSegments rings)).
       \<not> tip_triangle ogiveSegments t \<longrightarrow>
       0 < triangle_area (position (createOgiveGeometry len radius ogiveSegments rings)) t)) \<and>
   (0 \<le> angle \<and> angle \<le> 40 \<longrightarrow>
    (\<forall>t \<in> set (mesh_triangles (createAhmedBodyGeometry (1044 / 1000) (389 / 1000) (288 / 1000) angle)).
       0 < triangle_area
             (position (createAhmedBodyGeometry (1044 / 1000) (389 / 1000) (288 / 1000) angle)) t))"
  using wing_mesh_ok [of airfoilX airfoilY wingSpan chord segments]
    ogive_mesh_ok [of len radius ogiveSegments rings]
    ahmed_mesh_ok [of bodyLength width height slantAngle]
    wing_area_pos [of wingSpan chord segments airfoilX airfoilY]
    ogive_area_pos [of radius len ogiveSegments rings]
    ahmed_area_pos [of angle]
  by simp

theorem mesh_indices_valid_witness:
  "mesh_ok (createWingGeometry [1, 0, 1] [1 / 10, 0, - (1 / 10)] 2 1 20) 63 80 \<and>
   mesh_ok (createOgiveGeometry 5 1 32 32) 1089 2048 \<and>
   mesh_ok (createAhmedBodyGeometry (1044 / 1000) (389 / 1000) (288 / 1000) 25) 168 292 \<and>
   0 < triangle_area (position (createWingGeometry [1, 0, 1] [1 / 10, 0, - (1 / 10)] 2 1 20)) (0, 3, 1) \<and>
   \<not> tip_triangle 32 (33, 34, 1) \<and>
   0 < triangle_area (position (createOgiveGeometry 5 1 32 32)) (33, 34, 1) \<and>
   0 < triangle_area
         (position (createAhmedBodyGeometry (1044 / 1000) (389 / 1000) (288 / 1000) 25)) (0, 2, 1)"
proof -
  have pts: "\<forall>j. j + 1 < length [1, 0, 1::real] \<longrightarrow>
      [1, 0, 1::real] ! j \<noteq> [1, 0, 1] ! (j + 1) \<or>
      [1 / 10, 0, - (1 / 10)::real] ! j \<noteq> [1 / 10, 0, - (1 / 10)] ! (j + 1)"
    by (auto simp: less_Suc_eq numeral_3_eq_3 numeral_2_eq_2)
  have w: "(0, 3, 1) \<in> set (mesh_triangles (createWingGeometry [1, 0, 1] [1 / 10, 0, - (1 / 10)] 2 1 20))"
    using wing_first_triangle [of 20 "[1, 0, 1]" "[1 / 10, 0, - (1 / 10)]" 2 1]
    by (simp add: numeral_3_eq_3)
  have o: "(33, 34, 1) \<in> set (mesh_triangles (createOgiveGeometry 5 1 32 32))"
    using ogive_first_quad(2) [of 32 32 5 1] by simp
  have nt: "\<not> tip_triangle 32 (33, 34, 1)" by (simp add: tip_triangle_def)
  have a: "(0, 2, 1) \<in> set (mesh_triangles
      (createAhmedBodyGeometry (1044 / 1000) (389 / 1000) (288 / 1000) 25))"
    by (rule ahmed_first_cap)
  from mesh_indices_valid [of "[1, 0, 1]" "[1 / 10, 0, - (1 / 10)]" 2 1 20 5 1 32 32
      "1044 / 1000" "389 / 1000" "288 / 1000" 25 25] pts w o nt a
  show ?thesis by simp
qed

text \<open>
  The claim as stated fails: a triangle of zero area does occur. For length 5 and
  radius 1 the first ring of the ogive has radius 0, so the first triangle, a tip
  triangle, has two corners at the origin and its panel has area 0.
\<close>

theorem ogive_tip_degenerate:
  "(0, 33, 1) \<in> set (mesh_triangles (createOgiveGeometry 5 1 32 32)) \<and>
   triangle_area (position (createOgiveGeometry 5 1 32 32)) (0, 33, 1) = 0"
  using ogive_first_quad(1) [of 32 32 5 1] ogive_tip_area [of 1 5 32 32]
  by simp

subsection \<open>The solver at zero freestream speed\<close>

lemma pressureCoefficient_zero_freestream:
  "length_v (freestream solver) = 0 \<Longrightarrow> pressureCoefficient solver panels point = None"
  by (simp add: pressureCoefficient_def num_div_def)

lemma distanceTo_self [simp]: "distanceTo a a = 0"
  by (simp add: distanceTo_def subVectors_def)

lemma panel_center_make_panel:
  "panel_center (make_panel positions t) = triangle_center positions t"
  by (cases t) (simp add: make_panel_def Let_def)

lemma cp_at_non_finite: "\<forall>c \<in> set cps. c = None \<Longrightarrow> cp_at cps i = None"
  by (auto simp: cp_at_def split: option.splits)

lemma find_avgCp_non_finite:
  assumes "t \<in> set ts" and "\<forall>c \<in> set cps. c = None"
  shows "find_avgCp positions cps (make_panel positions t) ts = Some None"
  using assms(1)
proof (induction ts)
  case Nil
  then show ?case by simp
next
  case (Cons u us)
  obtain i0 i1 i2 where u: "u = (i0, i1, i2)" by (cases u)
  show ?case
  proof (cases "distanceTo (triangle_center positions u) (panel_center (make_panel positions t)) < 1 / 1000")
    case True
    then show ?thesis
      by (simp add: u num_add_def num_div_def cp_at_non_finite [OF assms(2)])
  next
    case False
    then have "t \<noteq> u" by (auto simp: panel_center_make_panel)
    with Cons.prems have "t \<in> set us" by simp
    from Cons.IH [OF this] False show ?thesis by (simp add: u)
  qed
qed

lemma add_force_non_finite:
  "find_avgCp positions cps panel ts = Some None \<Longrightarrow>
     add_force solver positions cps ts forces panel = (None, None)"
  by (simp add: add_force_def Let_def num_mul_def num_add_def split: option.splits)

lemma foldl_add_force_non_finite:
  assumes "\<forall>p \<in> set ps. find_avgCp positions cps p ts = Some None"
  shows "foldl (add_force solver positions cps ts) (None, None) ps = (None, None)"
  using assms by (induction ps) (simp_all add: add_force_non_finite)

lemma solve_zero_freestream:
  assumes "length_v (freestream solver) = 0" and "triangles geo \<noteq> []"
  shows "pressureCoefficients (solve solver geo) = replicate (length (position geo)) None \<and>
         cfd_drag (solve solver geo) = None \<and> cfd_lift (solve solver geo) = None"
proof -
  let ?positions = "position geo"
  let ?ts = "triangles geo"
  let ?panels = "map (make_panel ?positions) ?ts"
  let ?cps = "map (pressureCoefficient solver ?panels) ?positions"
  have "pressureCoefficient solver ?panels = (\<lambda>point. None)"
    by (rule ext) (rule pressureCoefficient_zero_freestream [OF assms(1)])
  then have cps: "?cps = replicate (length ?positions) None"
    by (simp add: map_replicate_const)
  have found: "\<forall>p \<in> set ?panels. find_avgCp ?positions ?cps p ?ts = Some None"
    using find_avgCp_non_finite [of _ ?ts ?cps] by (auto simp: cps)
  obtain t rest where ts: "?ts = t # rest" using assms(2) by (cases ?ts) auto
  have "foldl (add_force solver ?positions ?cps ?ts) (Some 0, Some 0) ?panels = (None, None)"
    using found foldl_add_force_non_finite [of "map (make_panel ?positions) rest" ?positions ?cps ?ts solver]
    by (simp add: ts add_force_non_finite)
  then show ?thesis
    using cps by (simp add: solve_def Let_def)
qed

lemma index_groups_empty: "index_groups xs = [] \<longleftrightarrow> xs = []"
  by (induction xs rule: index_groups.induct) simp_all

lemma ogive_triangles_nonempty:
  assumes "0 < segments" "0 < rings"
  shows "triangles (createOgiveGeometry len radius segments rings) \<noteq> []"
proof -
  have "length (ogive_indices segments rings) \<noteq> 0"
    using assms by (simp add: ogive_indices_wing length_wing_indices)
  then show ?thesis
    by (simp add: triangles_def createOgiveGeometry_def index_groups_empty)
qed

lemma freestream_zero_velocity:
  "length_v (freestream (new_PanelMethodSolver 0 angleOfAttack dens reynolds)) = 0"
  by (simp add: new_PanelMethodSolver_def Let_def)

text \<open>
  Claim C7 fails on the code: the division by the freestream speed in
  \<open>velocityRatio\<close> has no guard. For the ogive of the bullet train scenario at velocity
  0, every pressure coefficient, the drag, the lift and both coefficients are
  non-finite (NaN in JavaScript). Of the two guards that the claim names, the code
  has the other one: panels closer than 0.001 to a vertex are skipped.
\<close>

theorem solve_zero_velocity_non_finite:
  "pressureCoefficients (solve (new_PanelMethodSolver 0 0 (1225 / 1000) 10000000)
      (createOgiveGeometry 8 (3 / 2) 32 32)) = replicate 1089 None \<and>
   cfd_drag (solve (new_PanelMethodSolver 0 0 (1225 / 1000) 10000000)
      (createOgiveGeometry 8 (3 / 2) 32 32)) = None \<and>
   cfd_lift (solve (new_PanelMethodSolver 0 0 (1225 / 1000) 10000000)
      (createOgiveGeometry 8 (3 / 2) 32 32)) = None \<and>
   calculateDragCoefficient (new_PanelMethodSolver 0 0 (1225 / 1000) 10000000)
      (createOgiveGeometry 8 (3 / 2) 32 32) 1 = None \<and>
   calculateLiftCoefficient (new_PanelMethodSolver 0 0 (1225 / 1000) 10000000)
      (createOgiveGeometry 8 (3 / 2) 32 32) 1 = None"
proof -
  have "triangles (createOgiveGeometry 8 (3 / 2) 32 32) \<noteq> []"
    by (rule ogive_triangles_nonempty) simp_all
  from solve_zero_freestream [OF freestream_zero_velocity this]
  have "pressureCoefficients (solve (new_PanelMethodSolver 0 0 (1225 / 1000) 10000000)
      (createOgiveGeometry 8 (3 / 2) 32 32)) =
        replicate (length (position (createOgiveGeometry 8 (3 / 2) 32 32))) None \<and>
      cfd_drag (solve (new_PanelMethodSolver 0 0 (1225 / 1000) 10000000)
        (createOgiveGeometry 8 (3 / 2) 32 32)) = None \<and>
      cfd_lift (solve (new_PanelMethodSolver 0 0 (1225 / 1000) 10000000)
        (createOgiveGeometry 8 (3 / 2) 32 32)) = None" .
  moreover have "length (position (createOgiveGeometry 8 (3 / 2) 32 32)) = 1089"
    using ogive_mesh_ok [of 8 "3 / 2" 32 32] by (simp add: mesh_ok_def)
  ultimately show ?thesis
    by (simp add: calculateDragCoefficient_def calculateLiftCoefficient_def Let_def num_div_def)
qed

end
